theory Spec2Isabelle
  imports Complex_Main
begin

section \<open>The todo table\<close>

text \<open>
  The entity of \<^verbatim>\<open>models/Todo.js\<close> and of the migration that creates the table
  \<^verbatim>\<open>todos\<close>. Timestamps are milliseconds since the epoch (the code holds them as the
  strings of \<^verbatim>\<open>toISOString\<close>, whose order is the order of the instants). A nullable
  column is an \<open>option\<close>. The column \<^verbatim>\<open>tags\<close> holds the text that
  \<^verbatim>\<open>JSON.stringify\<close> produced, or NULL.
\<close>

datatype priority = Low | Medium | High

record todo =
  tid :: string
  title :: string
  description :: "string option"
  completed :: bool
  priority :: priority
  dueDate :: "int option"
  tags :: "string option"
  createdAt :: int
  updatedAt :: int

text \<open>
  An error object of the JavaScript runtime, with the properties that the error handler
  reads. \<open>is_ApiError\<close> is the answer of \<^verbatim>\<open>instanceof ApiError\<close>. Of the stack trace
  only the first line is kept, which names the error and its message.
\<close>

record js_error =
  err_name :: string
  err_message :: string
  err_code :: "string option"
  err_errno :: "int option"
  statusCode :: "int option"
  err_stack :: "string option"
  is_ApiError :: bool

definition ApiError :: "int \<Rightarrow> string \<Rightarrow> js_error" where
  "ApiError sc msg =
     \<lparr>err_name = ''Error'', err_message = msg, err_code = None, err_errno = None,
      statusCode = Some sc, err_stack = Some (''Error: '' @ msg), is_ApiError = True\<rparr>"

text \<open>
  The store: the rows of the table in the order the engine keeps them, and the error, if
  any, with which the store currently rejects every statement (connection refused, pool
  exhausted). The store stands for the driver and the engine together; the part of the
  object-relational mapper that runs before a statement is sent, the check of an object
  against the schema of the model class and the hooks, is spelled out below.
\<close>

record db =
  rows :: "todo list"
  fault :: "js_error option"

section \<open>The SQL that the query builder emits\<close>

subsection \<open>LIKE\<close>

text \<open>
  The operator \<^verbatim>\<open>LIKE\<close> of the store (MySQL, see \<^verbatim>\<open>knexfile.js\<close>): in the pattern
  \<^verbatim>\<open>%\<close> matches any run of characters, \<^verbatim>\<open>_\<close> matches exactly one character and a
  backslash takes the next character literally. The flag says whether the collation of the
  column ignores case (it does for the text columns \<^verbatim>\<open>title\<close> and \<^verbatim>\<open>description\<close>,
  it does not for the JSON column \<^verbatim>\<open>tags\<close>).
\<close>

definition to_lower :: "char \<Rightarrow> char" where
  "to_lower c =
     (if 65 \<le> (of_char c :: nat) \<and> (of_char c :: nat) \<le> 90
      then char_of ((of_char c :: nat) + 32) else c)"

definition same_char :: "bool \<Rightarrow> char \<Rightarrow> char \<Rightarrow> bool" where
  "same_char ci a b = (if ci then to_lower a = to_lower b else a = b)"

fun like :: "bool \<Rightarrow> string \<Rightarrow> string \<Rightarrow> bool" where
  "like ci [] [] = True"
| "like ci [] (c # cs) = False"
| "like ci (p # ps) [] = (p = CHR ''%'' \<and> like ci ps [])"
| "like ci (p # ps) (c # cs) =
     (if p = CHR ''%'' then like ci ps (c # cs) \<or> like ci (p # ps) cs
      else if p = CHR ''_'' then like ci ps cs
      else if p = CHR 0x5C then
        (case ps of
           [] \<Rightarrow> same_char ci p c \<and> like ci [] cs
         | q # qs \<Rightarrow> same_char ci q c \<and> like ci qs cs)
      else same_char ci p c \<and> like ci ps cs)"

subsection \<open>WHERE clauses\<close>

datatype text_column = Title | Description | Tags

datatype cond =
    CompletedEq bool
  | PriorityEq priority
  | Like text_column string
  | OrWhere cond cond
  | DueDateLe int
  | IdIn "string list"

text \<open>A comparison with NULL is not true, so a row with NULL in the column is not selected.\<close>

fun column_text :: "text_column \<Rightarrow> todo \<Rightarrow> string option" where
  "column_text Title r = Some (title r)"
| "column_text Description r = description r"
| "column_text Tags r = tags r"

fun case_insensitive :: "text_column \<Rightarrow> bool" where
  "case_insensitive Title = True"
| "case_insensitive Description = True"
| "case_insensitive Tags = False"

fun holds :: "cond \<Rightarrow> todo \<Rightarrow> bool" where
  "holds (CompletedEq b) r = (completed r = b)"
| "holds (PriorityEq p) r = (priority r = p)"
| "holds (Like col pat) r =
     (case column_text col r of None \<Rightarrow> False | Some s \<Rightarrow> like (case_insensitive col) pat s)"
| "holds (OrWhere a b) r = (holds a r \<or> holds b r)"
| "holds (DueDateLe t) r = (case dueDate r of None \<Rightarrow> False | Some d \<Rightarrow> d \<le> t)"
| "holds (IdIn ids) r = (tid r \<in> set ids)"

definition selected :: "cond list \<Rightarrow> todo \<Rightarrow> bool" where
  "selected cs r = list_all (\<lambda>c. holds c r) cs"

subsection \<open>ORDER BY\<close>

datatype sort_by = SortCreatedAt | SortUpdatedAt | SortDueDate | SortPriority | SortTitle

datatype sort_order = Asc | Desc

text \<open>
  The order of the store on each sortable column: instants by time, NULL before every
  value, the enumeration by the position of the member in its declaration, text by the
  codes of its characters with case ignored.
\<close>

fun priority_index :: "priority \<Rightarrow> nat" where
  "priority_index Low = 1"
| "priority_index Medium = 2"
| "priority_index High = 3"

fun text_le :: "string \<Rightarrow> string \<Rightarrow> bool" where
  "text_le [] ys = True"
| "text_le (x # xs) [] = False"
| "text_le (x # xs) (y # ys) =
     (let a = (of_char (to_lower x) :: nat); b = (of_char (to_lower y) :: nat)
      in a < b \<or> (a = b \<and> text_le xs ys))"

fun column_le :: "sort_by \<Rightarrow> todo \<Rightarrow> todo \<Rightarrow> bool" where
  "column_le SortCreatedAt a b = (createdAt a \<le> createdAt b)"
| "column_le SortUpdatedAt a b = (updatedAt a \<le> updatedAt b)"
| "column_le SortDueDate a b =
     (case dueDate a of None \<Rightarrow> True
      | Some x \<Rightarrow> (case dueDate b of None \<Rightarrow> False | Some y \<Rightarrow> x \<le> y))"
| "column_le SortPriority a b = (priority_index (priority a) \<le> priority_index (priority b))"
| "column_le SortTitle a b = text_le (title a) (title b)"

text \<open>
  The store leaves the order of rows with equal keys open; the model sorts by insertion,
  which keeps them in the order of the table.
\<close>

fun insert_row :: "(todo \<Rightarrow> todo \<Rightarrow> bool) \<Rightarrow> todo \<Rightarrow> todo list \<Rightarrow> todo list" where
  "insert_row le x [] = [x]"
| "insert_row le x (y # ys) = (if le x y then x # y # ys else y # insert_row le x ys)"

definition sort_rows :: "(todo \<Rightarrow> todo \<Rightarrow> bool) \<Rightarrow> todo list \<Rightarrow> todo list" where
  "sort_rows le xs = foldr (insert_row le) xs []"

definition order_rows :: "sort_by \<Rightarrow> sort_order \<Rightarrow> todo list \<Rightarrow> todo list" where
  "order_rows sb so xs =
     (case so of
        Asc \<Rightarrow> sort_rows (column_le sb) xs
      | Desc \<Rightarrow> sort_rows (\<lambda>a b. column_le sb b a) xs)"

subsection \<open>Statements\<close>

text \<open>
  A query under construction, as the builder holds it: the WHERE clauses joined by AND, the
  ORDER BY, the LIMIT and the OFFSET. The builder is a value here, so \<^verbatim>\<open>clone\<close> is the
  identity.
\<close>

record query =
  wheres :: "cond list"
  ordering :: "(sort_by \<times> sort_order) option"
  limit_of :: "int option"
  offset_of :: "int option"

definition Todo_query :: query where
  "Todo_query = \<lparr>wheres = [], ordering = None, limit_of = None, offset_of = None\<rparr>"

definition where_q :: "cond \<Rightarrow> query \<Rightarrow> query" where
  "where_q c q = q\<lparr>wheres := wheres q @ [c]\<rparr>"

definition orderBy :: "sort_by \<Rightarrow> sort_order \<Rightarrow> query \<Rightarrow> query" where
  "orderBy sb so q = q\<lparr>ordering := Some (sb, so)\<rparr>"

definition limit_q :: "int \<Rightarrow> query \<Rightarrow> query" where
  "limit_q n q = q\<lparr>limit_of := Some n\<rparr>"

definition offset_q :: "int \<Rightarrow> query \<Rightarrow> query" where
  "offset_q n q = q\<lparr>offset_of := Some n\<rparr>"

definition rejected :: "query \<Rightarrow> bool" where
  "rejected q =
     ((case limit_of q of None \<Rightarrow> False | Some n \<Rightarrow> n < 0) \<or>
      (case offset_of q of None \<Rightarrow> False | Some n \<Rightarrow> n < 0))"

text \<open>
  Running a statement: the engine's fault, if any, is thrown; a negative LIMIT or OFFSET is
  rejected; otherwise the rows are filtered, ordered and cut to the window.
\<close>

definition statement_error :: js_error where
  "statement_error =
     \<lparr>err_name = ''Error'', err_message = ''A non-negative integer must be provided'',
      err_code = None, err_errno = None, statusCode = None,
      err_stack = Some ''Error: A non-negative integer must be provided'',
      is_ApiError = False\<rparr>"

definition count_q :: "db \<Rightarrow> query \<Rightarrow> js_error + int" where
  "count_q d q =
     (case fault d of
        Some e \<Rightarrow> Inl e
      | None \<Rightarrow> Inr (int (length (filter (selected (wheres q)) (rows d)))))"

definition fetch_q :: "db \<Rightarrow> query \<Rightarrow> js_error + todo list" where
  "fetch_q d q =
     (case fault d of
        Some e \<Rightarrow> Inl e
      | None \<Rightarrow>
          if rejected q then Inl statement_error
          else
            let matching = filter (selected (wheres q)) (rows d);
                ordered = (case ordering q of None \<Rightarrow> matching
                           | Some (sb, so) \<Rightarrow> order_rows sb so matching);
                skipped = (case offset_of q of None \<Rightarrow> ordered
                           | Some n \<Rightarrow> drop (nat n) ordered)
            in Inr (case limit_of q of None \<Rightarrow> skipped | Some n \<Rightarrow> take (nat n) skipped))"

section \<open>The list operation\<close>

datatype status = StatusCompleted | StatusPending | StatusAll

text \<open>
  The options of \<^verbatim>\<open>getAllTodos\<close> after the defaults of its destructuring pattern. An
  absent parameter is \<open>None\<close>; the tests \<^verbatim>\<open>if (search)\<close> and \<^verbatim>\<open>if (tag)\<close> are
  also false for the empty string.
\<close>

record options =
  page :: int
  limit :: int
  status :: status
  opt_priority :: "priority option"
  sortBy :: sort_by
  sortOrder :: sort_order
  search :: "string option"
  tag :: "string option"

text \<open>
  A JavaScript number that may be a quotient by zero: \<^verbatim>\<open>Math.ceil(total / limit)\<close> is
  \<^verbatim>\<open>Infinity\<close> or \<^verbatim>\<open>NaN\<close> when \<^verbatim>\<open>limit\<close> is 0 (the count of
  rows is never negative).
\<close>

datatype js_number = Num int | Infinity | NaN

definition ceil_div :: "int \<Rightarrow> int \<Rightarrow> js_number" where
  "ceil_div n per =
     (if per = 0 then (if n = 0 then NaN else Infinity)
      else Num (- ((- n) div per)))"

fun js_less :: "int \<Rightarrow> js_number \<Rightarrow> bool" where
  "js_less p (Num n) = (p < n)"
| "js_less p Infinity = True"
| "js_less p NaN = False"

record pagination =
  currentPage :: int
  totalPages :: js_number
  totalItems :: int
  itemsPerPage :: int
  hasNextPage :: bool
  hasPrevPage :: bool

record filters =
  f_status :: status
  f_priority :: "priority option"
  f_search :: "string option"
  f_tag :: "string option"

record listing =
  data :: "todo list"
  page_info :: pagination
  filters_of :: filters
  sorting :: "sort_by \<times> sort_order"

definition truthy :: "string option \<Rightarrow> bool" where
  "truthy s = (case s of None \<Rightarrow> False | Some x \<Rightarrow> x \<noteq> [])"

definition status_filter :: "status \<Rightarrow> query \<Rightarrow> query" where
  "status_filter st q =
     (if st = StatusCompleted then where_q (CompletedEq True) q
      else if st = StatusPending then where_q (CompletedEq False) q
      else q)"

definition priority_filter :: "priority option \<Rightarrow> query \<Rightarrow> query" where
  "priority_filter p q = (case p of None \<Rightarrow> q | Some v \<Rightarrow> where_q (PriorityEq v) q)"

definition search_filter :: "string option \<Rightarrow> query \<Rightarrow> query" where
  "search_filter s q =
     (if truthy s
      then where_q (OrWhere (Like Title (''%'' @ the s @ ''%''))
                            (Like Description (''%'' @ the s @ ''%''))) q
      else q)"

definition tag_filter :: "string option \<Rightarrow> query \<Rightarrow> query" where
  "tag_filter t q =
     (if truthy t
      then where_q (Like Tags ([CHR ''%'', CHR 0x22] @ the t @ [CHR 0x22, CHR ''%''])) q
      else q)"

definition filtered_query :: "options \<Rightarrow> query" where
  "filtered_query opts =
     tag_filter (tag opts)
       (search_filter (search opts)
         (priority_filter (opt_priority opts)
           (status_filter (status opts) Todo_query)))"

definition getAllTodos :: "db \<Rightarrow> options \<Rightarrow> js_error + listing" where
  "getAllTodos d opts =
     (let query = filtered_query opts in
      case count_q d query of
        Inl e \<Rightarrow> Inl (ApiError 500 ''Failed to fetch todos'')
      | Inr total_count \<Rightarrow>
          let offset = (page opts - 1) * limit opts;
              query' = offset_q offset (limit_q (limit opts)
                         (orderBy (sortBy opts) (sortOrder opts) query))
          in (case fetch_q d query' of
               Inl e \<Rightarrow> Inl (ApiError 500 ''Failed to fetch todos'')
             | Inr todos \<Rightarrow>
                 let total_pages = ceil_div total_count (limit opts) in
                 Inr \<lparr>data = todos,
                      page_info =
                        \<lparr>currentPage = page opts,
                         totalPages = total_pages,
                         totalItems = total_count,
                         itemsPerPage = limit opts,
                         hasNextPage = js_less (page opts) total_pages,
                         hasPrevPage = (page opts > 1)\<rparr>,
                      filters_of =
                        \<lparr>f_status = status opts, f_priority = opt_priority opts,
                         f_search = search opts, f_tag = tag opts\<rparr>,
                      sorting = (sortBy opts, sortOrder opts)\<rparr>))"

text \<open>The rows that the WHERE clauses of a request select, in the order of the table.\<close>

definition matching :: "db \<Rightarrow> options \<Rightarrow> todo list" where
  "matching d opts = filter (selected (wheres (filtered_query opts))) (rows d)"


section \<open>Values of the runtime\<close>

text \<open>
  The values that a parsed request carries. A \<^verbatim>\<open>Date\<close> object is represented by its time
  value (a number of milliseconds). An object is the list of its own properties; a property
  that is not listed is \<^verbatim>\<open>undefined\<close>.
\<close>

datatype js_value =
    JNull
  | JBool bool
  | JNum int
  | JStr string
  | JArr "js_value list"
  | JObj "(string \<times> js_value) list"

type_synonym object = "(string \<times> js_value) list"

fun join :: "string \<Rightarrow> string list \<Rightarrow> string" where
  "join sep [] = []"
| "join sep [x] = x"
| "join sep (x # y # ys) = x @ sep @ join sep (y # ys)"

definition digit :: "nat \<Rightarrow> char" where
  "digit n = char_of (48 + n)"

fun show_nat :: "nat \<Rightarrow> string" where
  "show_nat n = (if n < 10 then [digit n] else show_nat (n div 10) @ [digit (n mod 10)])"

declare show_nat.simps [simp del]

definition show_int :: "int \<Rightarrow> string" where
  "show_int i = (if i < 0 then CHR ''-'' # show_nat (nat (- i)) else show_nat (nat i))"

subsection \<open>JSON.stringify\<close>

definition hex_digit :: "nat \<Rightarrow> char" where
  "hex_digit n = (if n < 10 then char_of (48 + n) else char_of (87 + n))"

definition escape_char :: "char \<Rightarrow> string" where
  "escape_char c =
     (if c = CHR 0x22 then [CHR 0x5C, CHR 0x22]
      else if c = CHR 0x5C then [CHR 0x5C, CHR 0x5C]
      else if c = CHR 0x08 then [CHR 0x5C, CHR ''b'']
      else if c = CHR 0x09 then [CHR 0x5C, CHR ''t'']
      else if c = CHR 0x0A then [CHR 0x5C, CHR ''n'']
      else if c = CHR 0x0C then [CHR 0x5C, CHR ''f'']
      else if c = CHR 0x0D then [CHR 0x5C, CHR ''r'']
      else if (of_char c :: nat) < 32
        then [CHR 0x5C, CHR ''u'', CHR ''0'', CHR ''0'',
              hex_digit ((of_char c :: nat) div 16), hex_digit ((of_char c :: nat) mod 16)]
      else [c])"

definition quote :: "string \<Rightarrow> string" where
  "quote s = [CHR 0x22] @ concat (map escape_char s) @ [CHR 0x22]"

fun stringify :: "js_value \<Rightarrow> string" where
  "stringify JNull = ''null''"
| "stringify (JBool b) = (if b then ''true'' else ''false'')"
| "stringify (JNum n) = show_int n"
| "stringify (JStr s) = quote s"
| "stringify (JArr xs) = ''['' @ join '','' (map stringify xs) @ '']''"
| "stringify (JObj kvs) =
     ''{'' @ join '','' (map (\<lambda>kv. quote (fst kv) @ '':'' @ stringify (snd kv)) kvs) @ ''}''"

section \<open>The model class and the statements of the service\<close>

text \<open>
  The tests on strings that the model does not spell out are arguments. Two are of the
  validation library: whether a string is a version-4 UUID, and the instant that an ISO
  8601 string denotes. Two are of the schema validator of the mapper: the formats
  \<^verbatim>\<open>uuid\<close> and \<^verbatim>\<open>date-time\<close>.
\<close>

record library =
  is_uuidv4 :: "string \<Rightarrow> bool"
  parse_iso :: "string \<Rightarrow> int option"
  uuid_format :: "string \<Rightarrow> bool"
  date_time_format :: "string \<Rightarrow> bool"

subsection \<open>The schema of the model class\<close>

text \<open>
  \<^verbatim>\<open>Todo.jsonSchema\<close>. The mapper checks an object against it when \<^verbatim>\<open>insert\<close> or
  \<^verbatim>\<open>patch\<close> is called with the object, before the hooks run and before the statement is
  sent; for a patch the list \<^verbatim>\<open>required\<close> is left out. A property that the schema does
  not name is accepted as it is. A \<^verbatim>\<open>Date\<close> object is neither a string nor
  \<^verbatim>\<open>null\<close>. An object that fails the check is answered with a
  \<^verbatim>\<open>ValidationError\<close> of the mapper, with status code 400; its message lists the
  properties at fault and, like its stack trace, is not kept here, as no operation of the
  service passes it on.
\<close>

definition is_string :: "js_value \<Rightarrow> bool" where
  "is_string v = (case v of JStr s \<Rightarrow> True | _ \<Rightarrow> False)"

definition property_valid :: "library \<Rightarrow> string \<times> js_value \<Rightarrow> bool" where
  "property_valid lib kv =
     (let k = fst kv; v = snd kv in
      if k = ''id'' then (case v of JStr s \<Rightarrow> uuid_format lib s | _ \<Rightarrow> False)
      else if k = ''title'' then
        (case v of JStr s \<Rightarrow> 1 \<le> length s \<and> length s \<le> 255 | _ \<Rightarrow> False)
      else if k = ''description'' then
        (case v of JStr s \<Rightarrow> length s \<le> 1000 | JNull \<Rightarrow> True | _ \<Rightarrow> False)
      else if k = ''completed'' then (case v of JBool b \<Rightarrow> True | _ \<Rightarrow> False)
      else if k = ''priority'' then
        (case v of JStr s \<Rightarrow> s \<in> set [''low'', ''medium'', ''high''] | _ \<Rightarrow> False)
      else if k = ''dueDate'' then
        (case v of JStr s \<Rightarrow> date_time_format lib s | JNull \<Rightarrow> True | _ \<Rightarrow> False)
      else if k = ''tags'' then
        (case v of JArr xs \<Rightarrow> list_all is_string xs | JNull \<Rightarrow> True | _ \<Rightarrow> False)
      else if k = ''createdAt'' \<or> k = ''updatedAt'' then
        (case v of JStr s \<Rightarrow> date_time_format lib s | _ \<Rightarrow> False)
      else True)"

definition jsonSchema :: "library \<Rightarrow> bool \<Rightarrow> object \<Rightarrow> bool" where
  "jsonSchema lib patch obj =
     ((patch \<or> ''title'' \<in> set (map fst obj)) \<and> list_all (property_valid lib) obj)"

definition ValidationError :: js_error where
  "ValidationError =
     \<lparr>err_name = ''ValidationError'', err_message = [],
      err_code = None, err_errno = None, statusCode = Some 400,
      err_stack = None, is_ApiError = False\<rparr>"

subsection \<open>The statements\<close>

text \<open>
  The store is an ideal relational table: unless it is at fault it accepts the statements of
  the service, and a second row with the key of an existing row is a duplicate-key
  violation. The instants that the hooks read from the clock and the identifier that
  \<^verbatim>\<open>uuidv4()\<close> returns are arguments.
\<close>

definition priority_of :: "string \<Rightarrow> priority option" where
  "priority_of s =
     (if s = ''low'' then Some Low else if s = ''medium'' then Some Medium
      else if s = ''high'' then Some High else None)"

text \<open>
  Writing one property of an object into its column. After validation a property holds a
  value that its column takes; any other value leaves the row as it is.
\<close>

definition set_column :: "string \<times> js_value \<Rightarrow> todo \<Rightarrow> todo" where
  "set_column kv r =
     (let k = fst kv; v = snd kv in
      if k = ''id'' then (case v of JStr s \<Rightarrow> r\<lparr>tid := s\<rparr> | _ \<Rightarrow> r)
      else if k = ''title'' then (case v of JStr s \<Rightarrow> r\<lparr>title := s\<rparr> | _ \<Rightarrow> r)
      else if k = ''description'' then
        (case v of JStr s \<Rightarrow> r\<lparr>description := Some s\<rparr>
         | JNull \<Rightarrow> r\<lparr>description := None\<rparr> | _ \<Rightarrow> r)
      else if k = ''completed'' then (case v of JBool b \<Rightarrow> r\<lparr>completed := b\<rparr> | _ \<Rightarrow> r)
      else if k = ''priority'' then
        (case v of JStr s \<Rightarrow> (case priority_of s of Some p \<Rightarrow> r\<lparr>priority := p\<rparr> | None \<Rightarrow> r)
         | _ \<Rightarrow> r)
      else if k = ''dueDate'' then
        (case v of JNum t \<Rightarrow> r\<lparr>dueDate := Some t\<rparr>
         | JNull \<Rightarrow> r\<lparr>dueDate := None\<rparr> | _ \<Rightarrow> r)
      else if k = ''tags'' then
        (case v of JStr s \<Rightarrow> r\<lparr>tags := Some s\<rparr>
         | JNull \<Rightarrow> r\<lparr>tags := None\<rparr> | _ \<Rightarrow> r)
      else if k = ''createdAt'' then (case v of JNum t \<Rightarrow> r\<lparr>createdAt := t\<rparr> | _ \<Rightarrow> r)
      else if k = ''updatedAt'' then (case v of JNum t \<Rightarrow> r\<lparr>updatedAt := t\<rparr> | _ \<Rightarrow> r)
      else r)"

definition apply_patch :: "object \<Rightarrow> todo \<Rightarrow> todo" where
  "apply_patch obj r = fold set_column obj r"

text \<open>The defaults of the columns, from the migration.\<close>

definition column_defaults :: todo where
  "column_defaults =
     \<lparr>tid = [], title = [], description = None, completed = False, priority = Medium,
      dueDate = None, tags = None, createdAt = 0, updatedAt = 0\<rparr>"

text \<open>
  \<^verbatim>\<open>$beforeInsert\<close> assigns the identifier and reads the clock twice, once for each
  timestamp; \<^verbatim>\<open>$beforeUpdate\<close> reads it once.
\<close>

definition beforeInsert :: "string \<Rightarrow> int \<Rightarrow> int \<Rightarrow> object \<Rightarrow> object" where
  "beforeInsert uuid now1 now2 obj =
     obj @ [(''id'', JStr uuid), (''createdAt'', JNum now1), (''updatedAt'', JNum now2)]"

definition beforeUpdate :: "int \<Rightarrow> object \<Rightarrow> object" where
  "beforeUpdate now obj = obj @ [(''updatedAt'', JNum now)]"

definition duplicate_key :: js_error where
  "duplicate_key =
     \<lparr>err_name = ''Error'', err_message = ''Duplicate entry for key PRIMARY'',
      err_code = Some ''ER_DUP_ENTRY'', err_errno = Some 1062, statusCode = None,
      err_stack = Some ''Error: Duplicate entry for key PRIMARY'', is_ApiError = False\<rparr>"

definition insert_q ::
  "library \<Rightarrow> db \<Rightarrow> string \<Rightarrow> int \<Rightarrow> int \<Rightarrow> object \<Rightarrow> js_error + todo \<times> db" where
  "insert_q lib d uuid now1 now2 obj =
     (if \<not> jsonSchema lib False obj then Inl ValidationError
      else
        case fault d of
          Some e \<Rightarrow> Inl e
        | None \<Rightarrow>
            let row = apply_patch (beforeInsert uuid now1 now2 obj) column_defaults
            in if tid row \<in> set (map tid (rows d)) then Inl duplicate_key
               else Inr (row, d\<lparr>rows := rows d @ [row]\<rparr>))"


definition patch_q ::
  "library \<Rightarrow> db \<Rightarrow> int \<Rightarrow> cond \<Rightarrow> object \<Rightarrow> js_error + int \<times> db" where
  "patch_q lib d now c obj =
     (if \<not> jsonSchema lib True obj then Inl ValidationError
      else
        case fault d of
          Some e \<Rightarrow> Inl e
        | None \<Rightarrow>
            Inr (int (length (filter (holds c) (rows d))),
                 d\<lparr>rows := map (\<lambda>r. if holds c r then apply_patch (beforeUpdate now obj) r else r)
                                 (rows d)\<rparr>))"

definition delete_q :: "db \<Rightarrow> cond \<Rightarrow> js_error + int \<times> db" where
  "delete_q d c =
     (case fault d of
        Some e \<Rightarrow> Inl e
      | None \<Rightarrow>
          Inr (int (length (filter (holds c) (rows d))),
               d\<lparr>rows := filter (\<lambda>r. \<not> holds c r) (rows d)\<rparr>))"


text \<open>
  \<^verbatim>\<open>findDueSoon\<close> reads the clock, moves the day of the month of that date forward by
  the number of days with \<^verbatim>\<open>setDate\<close>, which counts calendar days in local time, and
  writes the result with \<^verbatim>\<open>toISOString\<close>, which throws a \<^verbatim>\<open>RangeError\<close> when
  the date has left the range of time values. The calendar of the runtime is an argument:
  \<open>setDate now days\<close> is the time value of the moved date, if it has one.
\<close>

definition RangeError :: js_error where
  "RangeError =
     \<lparr>err_name = ''RangeError'', err_message = ''Invalid time value'',
      err_code = None, err_errno = None, statusCode = None,
      err_stack = Some ''RangeError: Invalid time value'', is_ApiError = False\<rparr>"

definition findDueSoon ::
  "(int \<Rightarrow> int \<Rightarrow> int option) \<Rightarrow> db \<Rightarrow> int \<Rightarrow> int \<Rightarrow> js_error + todo list" where
  "findDueSoon setDate d now days =
     (case setDate now days of
        None \<Rightarrow> Inl RangeError
      | Some futureDate \<Rightarrow>
          fetch_q d (orderBy SortDueDate Asc
                      (where_q (CompletedEq False) (where_q (DueDateLe futureDate) Todo_query))))"

section \<open>The service\<close>


definition process_tags :: "object \<Rightarrow> object" where
  "process_tags obj =
     map (\<lambda>kv. if fst kv = ''tags'' then
                  (case snd kv of JArr xs \<Rightarrow> (fst kv, JStr (stringify (JArr xs))) | _ \<Rightarrow> kv)
                else kv) obj"

definition createTodo ::
  "library \<Rightarrow> db \<Rightarrow> string \<Rightarrow> int \<Rightarrow> int \<Rightarrow> object \<Rightarrow> (js_error + todo) \<times> db" where
  "createTodo lib d uuid now1 now2 todoData =
     (case insert_q lib d uuid now1 now2 (process_tags todoData) of
        Inl e \<Rightarrow> (Inl (ApiError 500 ''Failed to create todo''), d)
      | Inr (created, d') \<Rightarrow> (Inr created, d'))"


definition getTodosDueSoon ::
  "(int \<Rightarrow> int \<Rightarrow> int option) \<Rightarrow> db \<Rightarrow> int \<Rightarrow> int \<Rightarrow> js_error + todo list" where
  "getTodosDueSoon setDate d now days =
     (case findDueSoon setDate d now days of
        Inl e \<Rightarrow> Inl (ApiError 500 ''Failed to fetch todos due soon'')
      | Inr todos \<Rightarrow> Inr todos)"

definition bulkUpdateTodos ::
  "library \<Rightarrow> db \<Rightarrow> int \<Rightarrow> string list \<Rightarrow> object \<Rightarrow> (js_error + int) \<times> db" where
  "bulkUpdateTodos lib d now ids updateData =
     (case patch_q lib d now (IdIn ids) (process_tags updateData) of
        Inl e \<Rightarrow> (Inl (ApiError 500 ''Failed to bulk update todos''), d)
      | Inr (updatedCount, d') \<Rightarrow> (Inr updatedCount, d'))"

definition bulkDeleteTodos :: "db \<Rightarrow> string list \<Rightarrow> (js_error + int) \<times> db" where
  "bulkDeleteTodos d ids =
     (case delete_q d (IdIn ids) of
        Inl e \<Rightarrow> (Inl (ApiError 500 ''Failed to bulk delete todos''), d)
      | Inr (deletedCount, d') \<Rightarrow> (Inr deletedCount, d'))"

section \<open>The error handler\<close>

text \<open>One entry of the list of violations in the answer to an invalid request.\<close>

record error_detail =
  field :: string
  message :: string
  rejected_value :: "js_value option"

text \<open>The failure envelope, with its HTTP status.\<close>

record failure =
  http_status :: int
  error_code :: string
  error_message :: string
  error_details :: "error_detail list option"
  error_stack :: "string option"

text \<open>
  \<^verbatim>\<open>handleError\<close> copies the own properties of the error and its message into a plain
  object, then runs its tests one after the other; a later test that applies replaces the
  result of an earlier one.
\<close>

definition handleError :: "js_error \<Rightarrow> js_error" where
  "handleError err =
     (let error0 = err\<lparr>err_stack := None, is_ApiError := False\<rparr>;
          error1 = (if err_name err = ''ValidationError''
                    then ApiError 400 ''Validation Error'' else error0);
          error2 = (if err_code err = Some ''23000'' \<or> err_errno err = Some 1062
                    then ApiError 400 ''Duplicate field value entered'' else error1);
          error3 = (if err_code err = Some ''ECONNREFUSED'' \<or> err_code err = Some ''ENOTFOUND''
                    then ApiError 503 ''Database connection failed'' else error2);
          error4 = (if err_name err = ''JsonWebTokenError''
                    then ApiError 401 ''Invalid token'' else error3);
          error5 = (if err_name err = ''TokenExpiredError''
                    then ApiError 401 ''Token expired'' else error4)
      in error5)"

definition getErrorCode :: "int \<Rightarrow> string" where
  "getErrorCode sc =
     (case map_of
        [(400, ''BAD_REQUEST''), (401, ''UNAUTHORIZED''), (403, ''FORBIDDEN''),
         (404, ''NOT_FOUND''), (409, ''CONFLICT''), (422, ''UNPROCESSABLE_ENTITY''),
         (429, ''TOO_MANY_REQUESTS''), (500, ''INTERNAL_SERVER_ERROR''),
         (502, ''BAD_GATEWAY''), (503, ''SERVICE_UNAVAILABLE''), (504, ''GATEWAY_TIMEOUT'')] sc of
        Some c \<Rightarrow> c
      | None \<Rightarrow> ''UNKNOWN_ERROR'')"

text \<open>
  \<^verbatim>\<open>sendErrorResponse\<close> is called with an error whose status code is set; the flag says
  whether the environment is \<^verbatim>\<open>development\<close>.
\<close>

definition sendErrorResponse :: "bool \<Rightarrow> js_error \<Rightarrow> failure" where
  "sendErrorResponse development err =
     (let sc = (case statusCode err of Some n \<Rightarrow> n | None \<Rightarrow> 0) in
      \<lparr>http_status = sc,
       error_code = getErrorCode sc,
       error_message = err_message err,
       error_details = None,
       error_stack = (if development then err_stack err else None)\<rparr>)"

definition errorHandler :: "bool \<Rightarrow> js_error \<Rightarrow> failure" where
  "errorHandler development err =
     (let error = handleError err;
          error' = (if statusCode error = None \<or> statusCode error = Some 0
                    then ApiError 500 ''Something went wrong'' else error)
      in sendErrorResponse development error')"

section \<open>Request validation\<close>

subsection \<open>The validation library\<close>

text \<open>
  What \<^verbatim>\<open>schema.validate(value, preferences)\<close> of the validation library does for the
  schemas of this service: every key of an object schema is checked in the order of the
  schema, a key that the schema does not know is removed (\<^verbatim>\<open>stripUnknown\<close>), kept
  (\<^verbatim>\<open>allowUnknown\<close>) or reported, and with \<^verbatim>\<open>abortEarly\<close> only the first violation
  is reported. A rule maps the path and the value to the violations and the converted
  value. The messages that the schemas do not set are those of the library, which name the
  value by the label of its path: the keys joined by dots, with an index of an array in
  brackets, or \<^verbatim>\<open>value\<close> for the empty path. The keys of the schemas of this service
  are words, so a segment of digits is an index.
\<close>

record detail =
  d_path :: "string list"
  d_message :: string
  d_value :: "js_value option"

record prefs =
  abortEarly :: bool
  allowUnknown :: bool
  stripUnknown :: bool

type_synonym rule = "string list \<Rightarrow> js_value \<Rightarrow> detail list \<times> js_value"

datatype presence = Optional | Required string | Default js_value

type_synonym keys = "(string \<times> presence \<times> rule) list"

definition is_index :: "string \<Rightarrow> bool" where
  "is_index s = (s \<noteq> [] \<and> list_all (\<lambda>c. c \<in> set ''0123456789'') s)"

definition path_label :: "string list \<Rightarrow> string" where
  "path_label p =
     (if p = [] then ''value''
      else foldl (\<lambda>acc s. if is_index s then acc @ ''['' @ s @ '']''
                            else if acc = [] then s else acc @ ''.'' @ s) [] p)"

definition violation :: "string list \<Rightarrow> string \<Rightarrow> js_value option \<Rightarrow> detail" where
  "violation p m v = \<lparr>d_path = p, d_message = m, d_value = v\<rparr>"

fun validate_keys :: "string list \<Rightarrow> object \<Rightarrow> keys \<Rightarrow> detail list \<times> object" where
  "validate_keys p input [] = ([], [])"
| "validate_keys p input ((k, pres, check) # ks) =
     (let rest = validate_keys p input ks in
      case map_of input k of
        None \<Rightarrow>
          (case pres of
             Optional \<Rightarrow> rest
           | Required msg \<Rightarrow> (violation (p @ [k]) msg None # fst rest, snd rest)
           | Default v \<Rightarrow> (fst rest, (k, v) # snd rest))
      | Some v \<Rightarrow>
          (let checked = check (p @ [k]) v
           in (fst checked @ fst rest, (k, snd checked) # snd rest)))"

definition unknown_keys :: "keys \<Rightarrow> object \<Rightarrow> object" where
  "unknown_keys ks input = filter (\<lambda>kv. fst kv \<notin> set (map fst ks)) input"

definition joi_object :: "prefs \<Rightarrow> keys \<Rightarrow> (nat \<times> string) option \<Rightarrow> rule" where
  "joi_object pr ks least p v =
     (case v of
        JObj input \<Rightarrow>
          (let known = validate_keys p input ks;
               unknown = unknown_keys ks input;
               unknown_errors =
                 (if stripUnknown pr \<or> allowUnknown pr then []
                  else map (\<lambda>kv. violation (p @ [fst kv])
                                   (quote (path_label (p @ [fst kv])) @ '' is not allowed'')
                                   (Some (snd kv))) unknown);
               kept = snd known @ (if stripUnknown pr then [] else unknown);
               least_errors =
                 (case least of
                    None \<Rightarrow> []
                  | Some (n, msg) \<Rightarrow>
                      if length kept < n then [violation p msg (Some (JObj kept))] else [])
           in (fst known @ unknown_errors @ least_errors, JObj kept))
      | _ \<Rightarrow> ([violation p (quote (path_label p) @ '' must be of type object'') (Some v)], v))"

definition schema_validate ::
  "(prefs \<Rightarrow> rule) \<Rightarrow> js_value \<Rightarrow> prefs \<Rightarrow> detail list option \<times> js_value" where
  "schema_validate schema v pr =
     (let checked = schema pr [] v in
      if fst checked = [] then (None, snd checked)
      else (Some (if abortEarly pr then [hd (fst checked)] else fst checked), snd checked))"

subsection \<open>The rules of the fields\<close>

definition is_space :: "char \<Rightarrow> bool" where
  "is_space c = ((of_char c :: nat) = 32 \<or> (9 \<le> (of_char c :: nat) \<and> (of_char c :: nat) \<le> 13))"

definition trim :: "string \<Rightarrow> string" where
  "trim s = rev (dropWhile is_space (rev (dropWhile is_space s)))"

definition length_errors ::
  "string list \<Rightarrow> js_value \<Rightarrow> nat \<Rightarrow> (nat \<times> string) option \<Rightarrow> (nat \<times> string) option \<Rightarrow> detail list" where
  "length_errors p v n least most =
     (case least of None \<Rightarrow> []
      | Some (m, msg) \<Rightarrow> if n < m then [violation p msg (Some v)] else [])
     @ (case most of None \<Rightarrow> []
        | Some (m, msg) \<Rightarrow> if m < n then [violation p msg (Some v)] else [])"

definition joi_string ::
  "bool \<Rightarrow> (nat \<times> string) option \<Rightarrow> (nat \<times> string) option \<Rightarrow> js_value list
     \<Rightarrow> string option \<Rightarrow> rule" where
  "joi_string trimmed least most allowed empty_msg p v =
     (let v' = (case v of JStr s \<Rightarrow> JStr (if trimmed then trim s else s) | _ \<Rightarrow> v) in
      if v' \<in> set allowed then ([], v')
      else
        case v' of
          JStr s \<Rightarrow>
            if s = [] then
              ([violation p
                  (case empty_msg of
                     Some msg \<Rightarrow> msg
                   | None \<Rightarrow> quote (path_label p) @ '' is not allowed to be empty'')
                  (Some v')], v')
            else (length_errors p v' (length s) least most, v')
        | _ \<Rightarrow> ([violation p (quote (path_label p) @ '' must be a string'') (Some v')], v'))"

text \<open>
  A string restricted to a list of values. The library tests the list first and, as it
  goes on after a violation, the type of the value next: a value that is no string, or the
  empty string, has two violations.
\<close>

definition joi_valid :: "string list \<Rightarrow> string \<Rightarrow> rule" where
  "joi_valid vals msg p v =
     (case v of
        JStr s \<Rightarrow>
          if s \<in> set vals then ([], v)
          else if s = [] then
            ([violation p msg (Some v),
              violation p (quote (path_label p) @ '' is not allowed to be empty'') (Some v)], v)
          else ([violation p msg (Some v)], v)
      | _ \<Rightarrow>
          ([violation p msg (Some v),
            violation p (quote (path_label p) @ '' must be a string'') (Some v)], v))"

definition joi_boolean :: rule where
  "joi_boolean p v =
     (case v of
        JBool b \<Rightarrow> ([], v)
      | JStr s \<Rightarrow>
          if map to_lower s = ''true'' then ([], JBool True)
          else if map to_lower s = ''false'' then ([], JBool False)
          else ([violation p (quote (path_label p) @ '' must be a boolean'') (Some v)], v)
      | _ \<Rightarrow> ([violation p (quote (path_label p) @ '' must be a boolean'') (Some v)], v))"

definition joi_date_iso ::
  "library \<Rightarrow> (int \<times> string) option \<Rightarrow> string \<Rightarrow> rule" where
  "joi_date_iso lib earliest format_msg p v =
     (case v of
        JNull \<Rightarrow> ([], v)
      | JStr s \<Rightarrow>
          (case parse_iso lib s of
             None \<Rightarrow> ([violation p format_msg (Some v)], v)
           | Some t \<Rightarrow>
               (case earliest of
                  None \<Rightarrow> ([], JNum t)
                | Some (now, msg) \<Rightarrow>
                    if t < now then ([violation p msg (Some (JNum t))], JNum t)
                    else ([], JNum t)))
      | _ \<Rightarrow> ([violation p format_msg (Some v)], v))"

definition joi_uuid :: "library \<Rightarrow> string option \<Rightarrow> rule" where
  "joi_uuid lib guid_msg p v =
     (case v of
        JStr s \<Rightarrow>
          if s = [] then
            ([violation p (quote (path_label p) @ '' is not allowed to be empty'') (Some v)], v)
          else if is_uuidv4 lib s then ([], v)
          else
            ([violation p
                (case guid_msg of
                   Some msg \<Rightarrow> msg
                 | None \<Rightarrow> quote (path_label p) @ '' must be a valid GUID'')
                (Some v)], v)
      | _ \<Rightarrow> ([violation p (quote (path_label p) @ '' must be a string'') (Some v)], v))"

definition joi_array ::
  "rule \<Rightarrow> (nat \<times> string) option \<Rightarrow> (nat \<times> string) option \<Rightarrow> bool \<Rightarrow> rule" where
  "joi_array item least most allow_null p v =
     (case v of
        JArr xs \<Rightarrow>
          (let checked = map (\<lambda>ix. item (p @ [show_nat (fst ix)]) (snd ix)) (enumerate 0 xs);
               v' = JArr (map snd checked)
           in (concat (map fst checked) @ length_errors p v' (length xs) least most, v'))
      | JNull \<Rightarrow>
          if allow_null then ([], v)
          else ([violation p (quote (path_label p) @ '' must be an array'') (Some v)], v)
      | _ \<Rightarrow> ([violation p (quote (path_label p) @ '' must be an array'') (Some v)], v))"

subsection \<open>The schemas\<close>

definition title_rule :: rule where
  "title_rule =
     joi_string True (Some (1, ''Title must be at least 1 character long''))
       (Some (255, ''Title cannot exceed 255 characters'')) [] (Some ''Title cannot be empty'')"

definition description_rule :: rule where
  "description_rule =
     joi_string True None
       (Some (1000, ''Description cannot exceed 1000 characters'')) [JStr [], JNull] None"

definition priority_rule :: rule where
  "priority_rule =
     joi_valid [''low'', ''medium'', ''high''] ''Priority must be one of: low, medium, high''"

definition tags_rule :: rule where
  "tags_rule =
     joi_array
       (joi_string True (Some (1, ''Tag must be at least 1 character long''))
          (Some (50, ''Tag cannot exceed 50 characters'')) [] None)
       None (Some (10, ''Cannot have more than 10 tags'')) True"

definition completed_rule :: rule where
  "completed_rule = joi_boolean"

definition createTodoSchema :: "library \<Rightarrow> int \<Rightarrow> prefs \<Rightarrow> rule" where
  "createTodoSchema lib now pr =
     joi_object pr
       [(''title'', Required ''Title is required'', title_rule),
        (''description'', Optional, description_rule),
        (''priority'', Default (JStr ''medium''), priority_rule),
        (''dueDate'', Optional,
           joi_date_iso lib (Some (now, ''Due date cannot be in the past''))
             ''Due date must be a valid ISO date''),
        (''tags'', Optional, tags_rule),
        (''completed'', Default (JBool False), completed_rule)]
       None"

definition updateTodoSchema :: "library \<Rightarrow> prefs \<Rightarrow> rule" where
  "updateTodoSchema lib pr =
     joi_object pr
       [(''title'', Optional, title_rule),
        (''description'', Optional, description_rule),
        (''priority'', Optional, priority_rule),
        (''dueDate'', Optional, joi_date_iso lib None ''Due date must be a valid ISO date''),
        (''tags'', Optional, tags_rule),
        (''completed'', Optional, completed_rule)]
       (Some (1, ''At least one field must be provided for update''))"

definition ids_rule :: "library \<Rightarrow> string \<Rightarrow> rule" where
  "ids_rule lib most_msg =
     joi_array (joi_uuid lib None)
       (Some (1, ''At least one ID is required'')) (Some (50, most_msg)) False"

definition bulkUpdateSchema :: "library \<Rightarrow> prefs \<Rightarrow> rule" where
  "bulkUpdateSchema lib pr =
     joi_object pr
       [(''ids'', Required ''IDs array is required'',
           ids_rule lib ''Cannot update more than 50 todos at once''),
        (''updateData'', Required ''Update data is required'', updateTodoSchema lib pr)]
       None"

definition bulkDeleteSchema :: "library \<Rightarrow> prefs \<Rightarrow> rule" where
  "bulkDeleteSchema lib pr =
     joi_object pr
       [(''ids'', Required ''IDs array is required'',
           ids_rule lib ''Cannot delete more than 50 todos at once'')]
       None"

subsection \<open>The middleware\<close>

datatype property = Body | Query | Params

record request =
  req_body :: js_value
  req_query :: js_value
  req_params :: js_value

fun get_property :: "property \<Rightarrow> request \<Rightarrow> js_value" where
  "get_property Body req = req_body req"
| "get_property Query req = req_query req"
| "get_property Params req = req_params req"

fun set_property :: "property \<Rightarrow> js_value \<Rightarrow> request \<Rightarrow> request" where
  "set_property Body v req = req\<lparr>req_body := v\<rparr>"
| "set_property Query v req = req\<lparr>req_query := v\<rparr>"
| "set_property Params v req = req\<lparr>req_params := v\<rparr>"

text \<open>
  The middleware either answers the request itself or hands the request, with the
  validated value in place of the raw one, to the next handler.
\<close>

datatype action = Respond failure | Next

definition errorDetails :: "detail list \<Rightarrow> error_detail list" where
  "errorDetails ds =
     map (\<lambda>d. \<lparr>field = join ''.'' (d_path d), message = d_message d, rejected_value = d_value d\<rparr>) ds"

definition validate :: "(prefs \<Rightarrow> rule) \<Rightarrow> property \<Rightarrow> request \<Rightarrow> request \<times> action" where
  "validate schema property req =
     (case schema_validate schema (get_property property req)
             \<lparr>abortEarly = False, allowUnknown = False, stripUnknown = True\<rparr> of
        (Some ds, v) \<Rightarrow>
          (req,
           Respond \<lparr>http_status = 400,
                    error_code = ''VALIDATION_ERROR'',
                    error_message = ''Request validation failed'',
                    error_details = Some (errorDetails ds),
                    error_stack = None\<rparr>)
      | (None, v) \<Rightarrow> (set_property property v req, Next))"

definition validateBody :: "(prefs \<Rightarrow> rule) \<Rightarrow> request \<Rightarrow> request \<times> action" where
  "validateBody schema = validate schema Body"

definition validateQuery :: "(prefs \<Rightarrow> rule) \<Rightarrow> request \<Rightarrow> request \<times> action" where
  "validateQuery schema = validate schema Query"

definition validateParams :: "(prefs \<Rightarrow> rule) \<Rightarrow> request \<Rightarrow> request \<times> action" where
  "validateParams schema = validate schema Params"

section \<open>The routes\<close>

text \<open>
  A route runs its validation middleware, then the controller, which calls the service;
  what the service throws reaches the error handler. The result is the failure envelope or
  the payload of the success envelope, and the store afterwards. The instant \<open>now\<close> is the
  reading of the clock at validation.
\<close>

definition property_of :: "string \<Rightarrow> js_value \<Rightarrow> js_value option" where
  "property_of k v = (case v of JObj kvs \<Rightarrow> map_of kvs k | _ \<Rightarrow> None)"

definition strings_of :: "js_value option \<Rightarrow> string list" where
  "strings_of v =
     (case v of Some (JArr xs) \<Rightarrow> concat (map (\<lambda>x. case x of JStr s \<Rightarrow> [s] | _ \<Rightarrow> []) xs)
      | _ \<Rightarrow> [])"

definition object_of :: "js_value option \<Rightarrow> object" where
  "object_of v = (case v of Some (JObj kvs) \<Rightarrow> kvs | _ \<Rightarrow> [])"

definition post_todos ::
  "library \<Rightarrow> bool \<Rightarrow> db \<Rightarrow> int \<Rightarrow> string \<Rightarrow> int \<Rightarrow> int \<Rightarrow> request
     \<Rightarrow> (failure + todo) \<times> db" where
  "post_todos lib development d now uuid now1 now2 req =
     (case validateBody (createTodoSchema lib now) req of
        (req', Respond f) \<Rightarrow> (Inl f, d)
      | (req', Next) \<Rightarrow>
          (case createTodo lib d uuid now1 now2 (object_of (Some (req_body req'))) of
             (Inl err, d') \<Rightarrow> (Inl (errorHandler development err), d')
           | (Inr t, d') \<Rightarrow> (Inr t, d')))"

definition patch_todos_bulk ::
  "library \<Rightarrow> bool \<Rightarrow> db \<Rightarrow> int \<Rightarrow> request \<Rightarrow> (failure + int) \<times> db" where
  "patch_todos_bulk lib development d now req =
     (case validateBody (bulkUpdateSchema lib) req of
        (req', Respond f) \<Rightarrow> (Inl f, d)
      | (req', Next) \<Rightarrow>
          (case bulkUpdateTodos lib d now (strings_of (property_of ''ids'' (req_body req')))
                  (object_of (property_of ''updateData'' (req_body req'))) of
             (Inl err, d') \<Rightarrow> (Inl (errorHandler development err), d')
           | (Inr updatedCount, d') \<Rightarrow> (Inr updatedCount, d')))"

definition delete_todos_bulk ::
  "library \<Rightarrow> bool \<Rightarrow> db \<Rightarrow> request \<Rightarrow> (failure + int) \<times> db" where
  "delete_todos_bulk lib development d req =
     (case validateBody (bulkDeleteSchema lib) req of
        (req', Respond f) \<Rightarrow> (Inl f, d)
      | (req', Next) \<Rightarrow>
          (case bulkDeleteTodos d (strings_of (property_of ''ids'' (req_body req'))) of
             (Inl err, d') \<Rightarrow> (Inl (errorHandler development err), d')
           | (Inr deletedCount, d') \<Rightarrow> (Inr deletedCount, d')))"

section \<open>Sample data\<close>

text \<open>Rows in the manner of the seed file, and requests, for the concrete instances below.\<close>

definition row1 :: todo where
  "row1 = \<lparr>tid = ''11111111-1111-4111-8111-111111111111'', title = ''Complete project documentation'',
     description = Some ''Write comprehensive documentation'', completed = False,
     priority = High, dueDate = Some 86400000,
     tags = Some ([CHR ''['', CHR 0x22] @ ''work'' @ [CHR 0x22, CHR '']'']),
     createdAt = 0, updatedAt = 0\<rparr>"

definition row2 :: todo where
  "row2 = \<lparr>tid = ''22222222-2222-4222-8222-222222222222'', title = ''Review pull requests'',
     description = None, completed = True,
     priority = Medium, dueDate = None,
     tags = None, createdAt = 0, updatedAt = 0\<rparr>"

definition row3 :: todo where
  "row3 = \<lparr>tid = ''33333333-3333-4333-8333-333333333333'', title = ''Buy groceries'',
     description = Some ''milk, bread, eggs'', completed = False,
     priority = Low, dueDate = None,
     tags = None, createdAt = 0, updatedAt = 0\<rparr>"

definition unused_id :: string where
  "unused_id = ''99999999-9999-4999-8999-999999999999''"

text \<open>
  Stand-ins for the tests on strings: the canonical form of a version-4 UUID, and a date
  parser and a date-time format that know one instant.
\<close>

definition is_hex :: "char \<Rightarrow> bool" where
  "is_hex c = (c \<in> set ''0123456789abcdefABCDEF'')"

definition canonical_uuidv4 :: "string \<Rightarrow> bool" where
  "canonical_uuidv4 s =
     (length s = 36
      \<and> list_all (\<lambda>i. if i \<in> set [8, 13, 18, 23] then s ! i = CHR ''-''
                       else if i = 14 then s ! i = CHR ''4''
                       else if i = 19 then s ! i \<in> set ''89abAB''
                       else is_hex (s ! i)) [0..<36])"

definition sample_library :: library where
  "sample_library =
     \<lparr>is_uuidv4 = canonical_uuidv4,
      parse_iso = (\<lambda>s. if s = ''2030-01-01T00:00:00.000Z'' then Some 1893456000000 else None),
      uuid_format = canonical_uuidv4,
      date_time_format = (\<lambda>s. s = ''2030-01-01T00:00:00.000Z'')\<rparr>"

text \<open>
  The calendar of a runtime whose local time is UTC: every day has 86400000 milliseconds,
  and a time value lies within 8640000000000000 milliseconds of the epoch.
\<close>

definition day_ms :: int where
  "day_ms = 86400000"

definition utc_setDate :: "int \<Rightarrow> int \<Rightarrow> int option" where
  "utc_setDate now days =
     (let t = now + days * day_ms
      in if - 8640000000000000 \<le> t \<and> t \<le> 8640000000000000 then Some t else None)"

definition sample_db :: db where
  "sample_db = \<lparr>rows = [row1, row2, row3], fault = None\<rparr>"

definition default_options :: options where
  "default_options = \<lparr>page = 1, limit = 10, status = StatusAll, opt_priority = None,
     sortBy = SortCreatedAt, sortOrder = Desc, search = None, tag = None\<rparr>"

definition page3_of_2 :: options where
  "page3_of_2 = default_options\<lparr>page := 3, limit := 2\<rparr>"


definition pending_low :: options where
  "pending_low = default_options\<lparr>status := StatusPending, opt_priority := Some Low\<rparr>"



section \<open>What the specification asks of the search\<close>

text \<open>
  The specification's reading of the search: the string occurs in the text as a substring,
  case ignored. \<open>plain\<close> holds of a string without a character that \<^verbatim>\<open>LIKE\<close>
  interprets.
\<close>

fun starts_with_ci :: "string \<Rightarrow> string \<Rightarrow> bool" where
  "starts_with_ci [] t = True"
| "starts_with_ci (x # xs) [] = False"
| "starts_with_ci (x # xs) (y # ys) = (to_lower x = to_lower y \<and> starts_with_ci xs ys)"

fun contains_ci :: "string \<Rightarrow> string \<Rightarrow> bool" where
  "contains_ci s [] = (s = [])"
| "contains_ci s (y # ys) = (starts_with_ci s (y # ys) \<or> contains_ci s ys)"

definition plain :: "string \<Rightarrow> bool" where
  "plain s = list_all (\<lambda>c. c \<noteq> CHR ''%'' \<and> c \<noteq> CHR ''_'' \<and> c \<noteq> CHR 0x5C) s"

definition search_b_y :: options where
  "search_b_y = default_options\<lparr>search := Some ''b_y''\<rparr>"

definition tag_w_rk :: options where
  "tag_w_rk = default_options\<lparr>tag := Some ''w_rk''\<rparr>"

definition milk_request :: request where
  "milk_request =
     \<lparr>req_body = JObj [(''title'', JStr ''Buy milk'')], req_query = JObj [], req_params = JObj []\<rparr>"

definition created_milk :: "(failure + todo) \<times> db" where
  "created_milk = post_todos sample_library False sample_db 999 unused_id 1000 1001 milk_request"

definition milk_validated :: object where
  "milk_validated =
     [(''title'', JStr ''Buy milk''), (''priority'', JStr ''medium''), (''completed'', JBool False)]"

definition duplicate_milk :: "(failure + todo) \<times> db" where
  "duplicate_milk = post_todos sample_library False sample_db 999 (tid row1) 1000 1000 milk_request"


section \<open>What the specification asks of the validator\<close>

text \<open>
  The options that the middleware passes to the library; the violations of one key of an
  object schema; all violations of an object, key by key and then the rule on the number
  of keys; the part of an object whose keys the schema knows; and the answer of the
  middleware to an invalid request.
\<close>

definition validation_options :: prefs where
  "validation_options = \<lparr>abortEarly = False, allowUnknown = False, stripUnknown = True\<rparr>"

definition key_violations :: "string list \<Rightarrow> object \<Rightarrow> string \<times> presence \<times> rule \<Rightarrow> detail list" where
  "key_violations p input key =
     (case key of (k, pres, check) \<Rightarrow>
        (case map_of input k of
           None \<Rightarrow> (case pres of Required msg \<Rightarrow> [violation (p @ [k]) msg None] | _ \<Rightarrow> [])
         | Some v \<Rightarrow> fst (check (p @ [k]) v)))"

definition normalized :: "keys \<Rightarrow> object \<Rightarrow> object" where
  "normalized ks input = snd (validate_keys [] input ks)"

definition all_violations :: "keys \<Rightarrow> (nat \<times> string) option \<Rightarrow> object \<Rightarrow> detail list" where
  "all_violations ks least input =
     concat (map (key_violations [] input) ks)
     @ (case least of
          None \<Rightarrow> []
        | Some (n, msg) \<Rightarrow>
            if length (normalized ks input) < n
            then [violation [] msg (Some (JObj (normalized ks input)))] else [])"


definition validation_failure :: "detail list \<Rightarrow> failure" where
  "validation_failure ds =
     \<lparr>http_status = 400, error_code = ''VALIDATION_ERROR'',
      error_message = ''Request validation failed'',
      error_details = Some (errorDetails ds), error_stack = None\<rparr>"


definition bulkUpdate_keys :: "library \<Rightarrow> prefs \<Rightarrow> keys" where
  "bulkUpdate_keys lib pr =
     [(''ids'', Required ''IDs array is required'',
         ids_rule lib ''Cannot update more than 50 todos at once''),
      (''updateData'', Required ''Update data is required'', updateTodoSchema lib pr)]"

definition updateTodo_keys :: "library \<Rightarrow> keys" where
  "updateTodo_keys lib =
     [(''title'', Optional, title_rule),
      (''description'', Optional, description_rule),
      (''priority'', Optional, priority_rule),
      (''dueDate'', Optional, joi_date_iso lib None ''Due date must be a valid ISO date''),
      (''tags'', Optional, tags_rule),
      (''completed'', Optional, completed_rule)]"

definition update_fields :: "string list" where
  "update_fields = [''title'', ''description'', ''priority'', ''dueDate'', ''tags'', ''completed'']"

definition good_bulk_request :: request where
  "good_bulk_request =
     \<lparr>req_body = JObj [(''ids'', JArr [JStr (tid row1), JStr (tid row3), JStr unused_id]),
                       (''updateData'', JObj [(''completed'', JBool True)])],
      req_query = JObj [], req_params = JObj []\<rparr>"

definition tagged_update :: object where
  "tagged_update =
     [(''priority'', JStr ''high''), (''tags'', JArr [JStr ''urgent'', JStr ''review''])]"

definition tagged_bulk_request :: request where
  "tagged_bulk_request =
     \<lparr>req_body = JObj [(''ids'', JArr [JStr (tid row1), JStr (tid row3)]),
                       (''updateData'', JObj tagged_update)],
      req_query = JObj [], req_params = JObj []\<rparr>"

definition bulkDelete_keys :: "library \<Rightarrow> prefs \<Rightarrow> keys" where
  "bulkDelete_keys lib pr =
     [(''ids'', Required ''IDs array is required'',
         ids_rule lib ''Cannot delete more than 50 todos at once'')]"

definition good_delete_request :: request where
  "good_delete_request =
     \<lparr>req_body = JObj [(''ids'', JArr [JStr (tid row2), JStr unused_id])],
      req_query = JObj [], req_params = JObj []\<rparr>"

definition createTodo_keys :: "library \<Rightarrow> int \<Rightarrow> keys" where
  "createTodo_keys lib now =
     [(''title'', Required ''Title is required'', title_rule),
      (''description'', Optional, description_rule),
      (''priority'', Default (JStr ''medium''), priority_rule),
      (''dueDate'', Optional,
         joi_date_iso lib (Some (now, ''Due date cannot be in the past''))
           ''Due date must be a valid ISO date''),
      (''tags'', Optional, tags_rule),
      (''completed'', Default (JBool False), completed_rule)]"

section \<open>Facts about the store\<close>

lemma length_insert_row: "length (insert_row le x ys) = Suc (length ys)"
  by (induction ys) auto

lemma set_insert_row: "set (insert_row le x ys) = insert x (set ys)"
  by (induction ys) auto

lemma length_sort_rows: "length (sort_rows le xs) = length xs"
  by (induction xs) (auto simp: sort_rows_def length_insert_row)

lemma set_sort_rows: "set (sort_rows le xs) = set xs"
  by (induction xs) (auto simp: sort_rows_def set_insert_row)

lemma length_order_rows: "length (order_rows sb so xs) = length xs"
  by (simp add: order_rows_def length_sort_rows split: sort_order.split)

lemma set_order_rows: "set (order_rows sb so xs) = set xs"
  by (simp add: order_rows_def set_sort_rows split: sort_order.split)

lemma wheres_orderBy: "wheres (offset_q a (limit_q b (orderBy sb so q))) = wheres q"
  by (simp add: offset_q_def limit_q_def orderBy_def)

lemma ceil_div_pos:
  assumes "0 < per"
  shows "ceil_div n per = Num \<lceil>real_of_int n / real_of_int per\<rceil>"
  using assms by (simp add: ceil_div_def ceiling_divide_eq_div)

lemma ceil_times_ge:
  assumes "0 < (per::int)"
  shows "n \<le> (- ((- n) div per)) * per"
proof -
  have "((- n) div per) * per + (- n) mod per = - n"
    by simp
  moreover have "0 \<le> (- n) mod per"
    using assms by simp
  ultimately have "((- n) div per) * per \<le> - n"
    by linarith
  then show ?thesis by (simp add: algebra_simps)
qed

lemma getAllTodos_value:
  assumes "fault d = None" and "1 \<le> page opts" and "1 \<le> limit opts"
  shows "getAllTodos d opts =
     Inr \<lparr>data = take (nat (limit opts)) (drop (nat ((page opts - 1) * limit opts))
                    (order_rows (sortBy opts) (sortOrder opts) (matching d opts))),
          page_info =
            \<lparr>currentPage = page opts,
             totalPages = ceil_div (int (length (matching d opts))) (limit opts),
             totalItems = int (length (matching d opts)),
             itemsPerPage = limit opts,
             hasNextPage = js_less (page opts) (ceil_div (int (length (matching d opts))) (limit opts)),
             hasPrevPage = (page opts > 1)\<rparr>,
          filters_of =
            \<lparr>f_status = status opts, f_priority = opt_priority opts,
             f_search = search opts, f_tag = tag opts\<rparr>,
          sorting = (sortBy opts, sortOrder opts)\<rparr>"
proof -
  have "0 \<le> (page opts - 1) * limit opts"
    using assms by simp
  then have nonneg: "\<not> (page opts - 1) * limit opts < 0"
    by linarith
  show ?thesis
    using assms(1,3) nonneg
    by (simp add: getAllTodos_def count_q_def fetch_q_def rejected_def matching_def Let_def
        offset_q_def limit_q_def orderBy_def)
qed


section \<open>Pagination\<close>

text \<open>
  C1. For a request with \<open>page \<ge> 1\<close> and \<open>1 \<le> limit \<le> 100\<close>, on a store that answers,
  the list operation returns the window of \<open>limit\<close> rows at offset \<open>(page - 1) * limit\<close> of
  the ordered matching rows; \<open>totalItems\<close> is the number of matching rows, \<open>totalPages\<close> is
  the ceiling of \<open>totalItems / itemsPerPage\<close>, \<open>hasNextPage\<close> is \<open>currentPage < totalPages\<close>
  and \<open>hasPrevPage\<close> is \<open>currentPage > 1\<close>. A page past the last one has no data while the
  totals are those of all matching rows, and with no matching row \<open>totalPages\<close> is 0 and
  \<open>hasNextPage\<close> is false.
\<close>

theorem getAllTodos_pagination:
  assumes "fault d = None" and "1 \<le> page opts" and "1 \<le> limit opts" and "limit opts \<le> 100"
  shows "\<exists>res. getAllTodos d opts = Inr res
     \<and> data res = take (nat (limit opts)) (drop (nat ((page opts - 1) * limit opts))
                      (order_rows (sortBy opts) (sortOrder opts) (matching d opts)))
     \<and> currentPage (page_info res) = page opts
     \<and> itemsPerPage (page_info res) = limit opts
     \<and> totalItems (page_info res) = int (length (matching d opts))
     \<and> totalPages (page_info res)
         = Num \<lceil>real (length (matching d opts)) / real_of_int (limit opts)\<rceil>
     \<and> hasNextPage (page_info res)
         = (page opts < \<lceil>real (length (matching d opts)) / real_of_int (limit opts)\<rceil>)
     \<and> hasPrevPage (page_info res) = (1 < page opts)
     \<and> (\<lceil>real (length (matching d opts)) / real_of_int (limit opts)\<rceil> < page opts
          \<longrightarrow> data res = [])
     \<and> (matching d opts = []
          \<longrightarrow> data res = [] \<and> totalPages (page_info res) = Num 0
              \<and> \<not> hasNextPage (page_info res))"
proof -
  let ?n = "int (length (matching d opts))"
  let ?tp = "\<lceil>real (length (matching d opts)) / real_of_int (limit opts)\<rceil>"
  have pos: "0 < limit opts" using assms(3) by simp
  have tp: "ceil_div ?n (limit opts) = Num ?tp"
    using ceil_div_pos [OF pos, of ?n] by simp
  have tp_int: "?tp = - ((- ?n) div limit opts)"
    using tp pos by (simp add: ceil_div_def)
  have past: "drop (nat ((page opts - 1) * limit opts))
      (order_rows (sortBy opts) (sortOrder opts) (matching d opts)) = []" if "?tp < page opts"
  proof -
    have "?tp \<le> page opts - 1" using that by simp
    then have "?tp * limit opts \<le> (page opts - 1) * limit opts"
      using pos by (simp add: mult_right_mono)
    moreover have "?n \<le> ?tp * limit opts"
      unfolding tp_int by (rule ceil_times_ge [OF pos])
    ultimately have "?n \<le> (page opts - 1) * limit opts" by linarith
    then have "length (matching d opts) \<le> nat ((page opts - 1) * limit opts)"
      by linarith
    then show ?thesis by (simp add: length_order_rows)
  qed
  have empty: "order_rows (sortBy opts) (sortOrder opts) [] = []"
    using length_order_rows [of "sortBy opts" "sortOrder opts" "[]"] by simp
  show ?thesis
    unfolding getAllTodos_value [OF assms(1-3)] tp
    using past empty assms(2) by auto
qed

theorem getAllTodos_pagination_witness:
  "fault sample_db = None \<and> 1 \<le> page page3_of_2 \<and> 1 \<le> limit page3_of_2
   \<and> limit page3_of_2 \<le> 100
   \<and> (\<exists>res. getAllTodos sample_db page3_of_2 = Inr res \<and> data res = []
         \<and> totalItems (page_info res) = 3 \<and> totalPages (page_info res) = Num 2
         \<and> \<not> hasNextPage (page_info res) \<and> hasPrevPage (page_info res))"
proof -
  have h: "fault sample_db = None" "1 \<le> page page3_of_2" "1 \<le> limit page3_of_2"
    "limit page3_of_2 \<le> 100"
    by (simp_all add: sample_db_def page3_of_2_def default_options_def)
  have m: "length (matching sample_db page3_of_2) = 3"
    by (simp add: matching_def sample_db_def page3_of_2_def default_options_def
        filtered_query_def tag_filter_def search_filter_def priority_filter_def
        status_filter_def truthy_def Todo_query_def selected_def)
  have l: "limit page3_of_2 = 2" "page page3_of_2 = 3"
    by (simp_all add: page3_of_2_def)
  show ?thesis
    using h getAllTodos_pagination [OF h] by (auto simp: m l)
qed



section \<open>The filter\<close>

lemma selected_append: "selected (cs @ [c]) r = (selected cs r \<and> holds c r)"
  by (auto simp: selected_def)

lemma selected_status_filter:
  "selected (wheres (status_filter st q)) r =
     (selected (wheres q) r \<and> (st = StatusCompleted \<longrightarrow> completed r)
        \<and> (st = StatusPending \<longrightarrow> \<not> completed r))"
  by (cases st) (auto simp: status_filter_def where_q_def selected_append)

lemma selected_priority_filter:
  "selected (wheres (priority_filter p q)) r =
     (selected (wheres q) r \<and> (\<forall>v. p = Some v \<longrightarrow> priority r = v))"
  by (cases p) (auto simp: priority_filter_def where_q_def selected_append)

lemma selected_search_filter:
  "selected (wheres (search_filter s q)) r =
     (selected (wheres q) r \<and>
      (truthy s \<longrightarrow>
         holds (OrWhere (Like Title (''%'' @ the s @ ''%''))
                        (Like Description (''%'' @ the s @ ''%''))) r))"
  by (auto simp: search_filter_def where_q_def selected_append)

lemma selected_tag_filter:
  "selected (wheres (tag_filter t q)) r =
     (selected (wheres q) r \<and>
      (truthy t \<longrightarrow>
         holds (Like Tags ([CHR ''%'', CHR 0x22] @ the t @ [CHR 0x22, CHR ''%''])) r))"
  by (auto simp: tag_filter_def where_q_def selected_append)

lemma selected_Todo_query: "selected (wheres Todo_query) r"
  by (simp add: Todo_query_def selected_def)

lemma selected_filtered_query:
  "selected (wheres (filtered_query opts)) r =
    ((status opts = StatusCompleted \<longrightarrow> completed r)
     \<and> (status opts = StatusPending \<longrightarrow> \<not> completed r)
     \<and> (\<forall>v. opt_priority opts = Some v \<longrightarrow> priority r = v)
     \<and> (truthy (search opts) \<longrightarrow>
           holds (OrWhere (Like Title (''%'' @ the (search opts) @ ''%''))
                          (Like Description (''%'' @ the (search opts) @ ''%''))) r)
     \<and> (truthy (tag opts) \<longrightarrow>
           holds (Like Tags ([CHR ''%'', CHR 0x22] @ the (tag opts) @ [CHR 0x22, CHR ''%''])) r))"
  unfolding filtered_query_def selected_tag_filter selected_search_filter
    selected_priority_filter selected_status_filter
  using selected_Todo_query by blast


text \<open>
  C2. The rows that a request selects are the rows of the table that satisfy every
  predicate of a parameter that is present, and no other predicate: \<open>completed = true\<close>
  for status \<open>completed\<close>, \<open>completed = false\<close> for status \<open>pending\<close>, nothing for status
  \<open>all\<close>, \<open>priority = v\<close> for a priority \<open>v\<close>, the search clause for a search string and
  the tag clause for a tag. With no parameter every row of the table is selected. The
  count and the page of the list operation are taken from these rows.
\<close>

theorem filter_is_conjunction:
  assumes "fault d = None" and "1 \<le> page opts" and "1 \<le> limit opts" and "limit opts \<le> 100"
  shows "(r \<in> set (matching d opts) \<longleftrightarrow>
            r \<in> set (rows d)
            \<and> (status opts = StatusCompleted \<longrightarrow> completed r = True)
            \<and> (status opts = StatusPending \<longrightarrow> completed r = False)
            \<and> (\<forall>v. opt_priority opts = Some v \<longrightarrow> priority r = v)
            \<and> (truthy (search opts) \<longrightarrow>
                  holds (OrWhere (Like Title (''%'' @ the (search opts) @ ''%''))
                                 (Like Description (''%'' @ the (search opts) @ ''%''))) r)
            \<and> (truthy (tag opts) \<longrightarrow>
                  holds (Like Tags ([CHR ''%'', CHR 0x22] @ the (tag opts) @ [CHR 0x22, CHR ''%''])) r))
     \<and> (status opts = StatusAll \<and> opt_priority opts = None \<and> search opts = None
          \<and> tag opts = None \<longrightarrow> matching d opts = rows d)
     \<and> (\<exists>res. getAllTodos d opts = Inr res
           \<and> totalItems (page_info res) = int (length (matching d opts))
           \<and> data res = take (nat (limit opts)) (drop (nat ((page opts - 1) * limit opts))
                            (order_rows (sortBy opts) (sortOrder opts) (matching d opts))))"
proof -
  have mem: "r \<in> set (matching d opts) \<longleftrightarrow>
            r \<in> set (rows d)
            \<and> (status opts = StatusCompleted \<longrightarrow> completed r = True)
            \<and> (status opts = StatusPending \<longrightarrow> completed r = False)
            \<and> (\<forall>v. opt_priority opts = Some v \<longrightarrow> priority r = v)
            \<and> (truthy (search opts) \<longrightarrow>
                  holds (OrWhere (Like Title (''%'' @ the (search opts) @ ''%''))
                                 (Like Description (''%'' @ the (search opts) @ ''%''))) r)
            \<and> (truthy (tag opts) \<longrightarrow>
                  holds (Like Tags ([CHR ''%'', CHR 0x22] @ the (tag opts) @ [CHR 0x22, CHR ''%''])) r)"
    unfolding matching_def set_filter mem_Collect_eq selected_filtered_query by simp
  have sel: "selected (wheres (filtered_query opts)) x"
    if "status opts = StatusAll" "opt_priority opts = None" "search opts = None" "tag opts = None"
    for x
    using that by (simp add: selected_filtered_query truthy_def)
  have all: "matching d opts = rows d"
    if "status opts = StatusAll" "opt_priority opts = None" "search opts = None" "tag opts = None"
    using sel [OF that] by (simp add: matching_def)
  have run: "\<exists>res. getAllTodos d opts = Inr res
           \<and> totalItems (page_info res) = int (length (matching d opts))
           \<and> data res = take (nat (limit opts)) (drop (nat ((page opts - 1) * limit opts))
                            (order_rows (sortBy opts) (sortOrder opts) (matching d opts)))"
    unfolding getAllTodos_value [OF assms(1-3)] by simp
  show ?thesis using mem all run by blast
qed

theorem filter_is_conjunction_witness:
  "fault sample_db = None \<and> 1 \<le> page pending_low \<and> 1 \<le> limit pending_low
   \<and> limit pending_low \<le> 100
   \<and> row3 \<in> set (matching sample_db pending_low)
   \<and> row1 \<notin> set (matching sample_db pending_low)
   \<and> matching sample_db default_options = rows sample_db"
proof -
  have h: "fault sample_db = None" "1 \<le> page pending_low" "1 \<le> limit pending_low"
    "limit pending_low \<le> 100"
    by (simp_all add: sample_db_def pending_low_def default_options_def)
  have h': "fault sample_db = None" "1 \<le> page default_options" "1 \<le> limit default_options"
    "limit default_options \<le> 100"
    by (simp_all add: sample_db_def default_options_def)
  have o: "status pending_low = StatusPending" "opt_priority pending_low = Some Low"
    "search pending_low = None" "tag pending_low = None"
    by (simp_all add: pending_low_def default_options_def)
  have o': "status default_options = StatusAll" "opt_priority default_options = None"
    "search default_options = None" "tag default_options = None"
    by (simp_all add: default_options_def)
  have r: "row3 \<in> set (rows sample_db)" "completed row3 = False" "priority row3 = Low"
    "priority row1 = High"
    by (simp_all add: sample_db_def row3_def row1_def)
  have "row3 \<in> set (matching sample_db pending_low)"
    using filter_is_conjunction [OF h, of row3] o r by (simp add: truthy_def)
  moreover have "row1 \<notin> set (matching sample_db pending_low)"
    using filter_is_conjunction [OF h, of row1] o r by (simp add: truthy_def)
  moreover have "matching sample_db default_options = rows sample_db"
    using filter_is_conjunction [OF h', of row1] o' by simp
  ultimately show ?thesis using h by simp
qed

section \<open>The due-soon query\<close>

lemma fetch_q_plain:
  assumes "fault d = None" and "limit_of q = None" and "offset_of q = None"
  shows "fetch_q d q =
     Inr (case ordering q of None \<Rightarrow> filter (selected (wheres q)) (rows d)
          | Some (sb, so) \<Rightarrow> order_rows sb so (filter (selected (wheres q)) (rows d)))"
  using assms by (simp add: fetch_q_def rejected_def Let_def)

lemma findDueSoon_value:
  assumes "fault d = None" and "setDate now days = Some cutoff"
  shows "findDueSoon setDate d now days =
     Inr (order_rows SortDueDate Asc
           (filter (\<lambda>r. holds (DueDateLe cutoff) r \<and> holds (CompletedEq False) r) (rows d)))"
proof -
  let ?q = "orderBy SortDueDate Asc
              (where_q (CompletedEq False) (where_q (DueDateLe cutoff) Todo_query))"
  have q: "limit_of ?q = None" "offset_of ?q = None" "ordering ?q = Some (SortDueDate, Asc)"
    "wheres ?q = [DueDateLe cutoff, CompletedEq False]"
    by (simp_all add: orderBy_def where_q_def Todo_query_def)
  have sel: "selected [DueDateLe cutoff, CompletedEq False] =
      (\<lambda>r. holds (DueDateLe cutoff) r \<and> holds (CompletedEq False) r)"
    by (simp add: selected_def fun_eq_iff)
  show ?thesis
    unfolding findDueSoon_def assms(2) option.case fetch_q_plain [OF assms(1) q(1,2)] q(3,4) sel
    by simp
qed

lemma getTodosDueSoon_value:
  assumes "fault d = None" and "setDate now days = Some cutoff"
  shows "getTodosDueSoon setDate d now days =
     Inr (order_rows SortDueDate Asc
           (filter (\<lambda>r. holds (DueDateLe cutoff) r \<and> holds (CompletedEq False) r) (rows d)))"
  using findDueSoon_value [of d setDate now days cutoff] assms
  by (simp add: getTodosDueSoon_def)

lemma getTodosDueSoon_failed:
  assumes "fault d \<noteq> None \<or> setDate now days = None"
  shows "getTodosDueSoon setDate d now days
     = Inl (ApiError 500 ''Failed to fetch todos due soon'')"
  using assms
  by (auto simp: getTodosDueSoon_def findDueSoon_def fetch_q_def
      split: option.splits sum.splits)

text \<open>
  C10. Whatever the number of days, the clock and the calendar, every row that the due-soon
  operation returns is a row of the table that is not completed and has a due date, the
  due date being at most the cutoff that the calendar gives; a row without a due date is
  never returned. The operation returns, with every pending row due by the cutoff, when
  the store answers and the moved date has a time value, and fails with status 500
  otherwise.
\<close>

theorem due_soon_has_dueDate:
  "(\<forall>todos. getTodosDueSoon setDate d now days = Inr todos \<longrightarrow>
       (\<forall>t\<in>set todos. t \<in> set (rows d) \<and> completed t = False
           \<and> (\<exists>due cutoff. dueDate t = Some due \<and> setDate now days = Some cutoff
                 \<and> due \<le> cutoff))
     \<and> (\<forall>r\<in>set (rows d). dueDate r = None \<longrightarrow> r \<notin> set todos))
   \<and> (fault d = None \<and> setDate now days \<noteq> None \<longrightarrow>
        (\<exists>todos. getTodosDueSoon setDate d now days = Inr todos
           \<and> (\<forall>r\<in>set (rows d). completed r = False
                 \<and> (\<exists>due cutoff. dueDate r = Some due \<and> setDate now days = Some cutoff
                       \<and> due \<le> cutoff)
               \<longrightarrow> r \<in> set todos)))
   \<and> (fault d \<noteq> None \<or> setDate now days = None \<longrightarrow>
        getTodosDueSoon setDate d now days
          = Inl (ApiError 500 ''Failed to fetch todos due soon''))"
proof (cases "fault d = None \<and> setDate now days \<noteq> None")
  case True
  then obtain cutoff where h: "fault d = None" "setDate now days = Some cutoff"
    by auto
  let ?todos = "order_rows SortDueDate Asc
           (filter (\<lambda>r. holds (DueDateLe cutoff) r \<and> holds (CompletedEq False) r) (rows d))"
  have run: "getTodosDueSoon setDate d now days = Inr ?todos"
    using getTodosDueSoon_value [of d setDate now days cutoff] h by simp
  have mem: "t \<in> set ?todos \<longleftrightarrow>
      t \<in> set (rows d) \<and> (\<exists>due. dueDate t = Some due \<and> due \<le> cutoff)
        \<and> completed t = False" for t
    by (auto simp: set_order_rows split: option.splits)
  show ?thesis
    unfolding run using mem h by auto
next
  case False
  then have "fault d \<noteq> None \<or> setDate now days = None"
    by auto
  with getTodosDueSoon_failed [of d setDate now days] False show ?thesis
    by auto
qed

theorem due_soon_has_dueDate_witness:
  "fault sample_db = None \<and> utc_setDate 0 7 = Some 604800000
   \<and> getTodosDueSoon utc_setDate sample_db 0 7 = Inr [row1]
   \<and> dueDate row1 = Some 86400000
   \<and> row3 \<in> set (rows sample_db) \<and> completed row3 = False \<and> dueDate row3 = None
   \<and> row3 \<notin> set [row1]
   \<and> utc_setDate 0 100000001 = None
   \<and> getTodosDueSoon utc_setDate sample_db 0 100000001
       = Inl (ApiError 500 ''Failed to fetch todos due soon'')"
proof -
  have h: "fault sample_db = None" "utc_setDate 0 7 = Some 604800000"
    "utc_setDate 0 100000001 = None"
    by (simp_all add: sample_db_def utc_setDate_def day_ms_def)
  have e: "getTodosDueSoon utc_setDate sample_db 0 7 = Inr [row1]"
    by code_simp
  have r: "row3 \<in> set (rows sample_db)" "completed row3 = False" "dueDate row3 = None"
    "dueDate row1 = Some 86400000"
    by (simp_all add: sample_db_def row3_def row1_def)
  from due_soon_has_dueDate [of utc_setDate sample_db 0 7] e r
  have "row3 \<notin> set [row1]"
    by blast
  moreover from due_soon_has_dueDate [of utc_setDate sample_db 0 100000001] h(3)
  have "getTodosDueSoon utc_setDate sample_db 0 100000001
       = Inl (ApiError 500 ''Failed to fetch todos due soon'')"
    by blast
  ultimately show ?thesis
    using h e r by simp
qed


section \<open>Toggling\<close>









section \<open>The search and tag clauses\<close>

lemma like_percent:
  "like ci (CHR ''%'' # ps) t \<longleftrightarrow> (\<exists>k\<le>length t. like ci ps (drop k t))"
proof (induction t)
  case Nil
  then show ?case by simp
next
  case (Cons c cs)
  have "(\<exists>k\<le>length (c # cs). like ci ps (drop k (c # cs)))
      \<longleftrightarrow> like ci ps (c # cs) \<or> (\<exists>k\<le>length cs. like ci ps (drop k cs))"
  proof
    assume "\<exists>k\<le>length (c # cs). like ci ps (drop k (c # cs))"
    then obtain k where k: "k \<le> length (c # cs)" "like ci ps (drop k (c # cs))" by blast
    show "like ci ps (c # cs) \<or> (\<exists>k\<le>length cs. like ci ps (drop k cs))"
    proof (cases k)
      case 0
      with k show ?thesis by simp
    next
      case (Suc j)
      with k have "j \<le> length cs" "like ci ps (drop j cs)" by simp_all
      then show ?thesis by blast
    qed
  next
    assume "like ci ps (c # cs) \<or> (\<exists>k\<le>length cs. like ci ps (drop k cs))"
    then show "\<exists>k\<le>length (c # cs). like ci ps (drop k (c # cs))"
    proof
      assume "like ci ps (c # cs)"
      then have "0 \<le> length (c # cs) \<and> like ci ps (drop 0 (c # cs))" by simp
      then show ?thesis by blast
    next
      assume "\<exists>k\<le>length cs. like ci ps (drop k cs)"
      then obtain k where "k \<le> length cs" "like ci ps (drop k cs)" by blast
      then have "Suc k \<le> length (c # cs) \<and> like ci ps (drop (Suc k) (c # cs))" by simp
      then show ?thesis by blast
    qed
  qed
  with Cons show ?case by simp
qed

lemma like_only_percent: "like ci ''%'' t"
  by (induction t) auto

lemma like_plain_prefix:
  assumes "plain s"
  shows "like ci (s @ ps) t \<longleftrightarrow>
     length s \<le> length t \<and> list_all2 (same_char ci) s (take (length s) t)
       \<and> like ci ps (drop (length s) t)"
  using assms
proof (induction s arbitrary: t)
  case Nil
  then show ?case by simp
next
  case (Cons x xs)
  then have x: "x \<noteq> CHR ''%''" "x \<noteq> CHR ''_''" "x \<noteq> CHR 0x5C" and xs: "plain xs"
    by (simp_all add: plain_def)
  show ?case
  proof (cases t)
    case Nil
    with x show ?thesis by simp
  next
    case (Cons c cs)
    with x Cons.IH [OF xs, of cs] show ?thesis by auto
  qed
qed

lemma starts_with_ci_iff:
  "starts_with_ci s t \<longleftrightarrow>
     length s \<le> length t \<and> list_all2 (same_char True) s (take (length s) t)"
proof (induction s t rule: starts_with_ci.induct)
  case (1 t)
  then show ?case by simp
next
  case (2 x xs)
  then show ?case by simp
next
  case (3 x xs y ys)
  then show ?case by (auto simp: same_char_def)
qed

lemma contains_ci_iff:
  "contains_ci s t \<longleftrightarrow> (\<exists>k\<le>length t. starts_with_ci s (drop k t))"
proof (induction t)
  case Nil
  then show ?case by (cases s) auto
next
  case (Cons c cs)
  have "(\<exists>k\<le>length (c # cs). starts_with_ci s (drop k (c # cs)))
      \<longleftrightarrow> starts_with_ci s (c # cs) \<or> (\<exists>k\<le>length cs. starts_with_ci s (drop k cs))"
  proof
    assume "\<exists>k\<le>length (c # cs). starts_with_ci s (drop k (c # cs))"
    then obtain k where k: "k \<le> length (c # cs)" "starts_with_ci s (drop k (c # cs))" by blast
    show "starts_with_ci s (c # cs) \<or> (\<exists>k\<le>length cs. starts_with_ci s (drop k cs))"
    proof (cases k)
      case 0
      with k show ?thesis by simp
    next
      case (Suc j)
      with k have "j \<le> length cs" "starts_with_ci s (drop j cs)" by simp_all
      then show ?thesis by blast
    qed
  next
    assume "starts_with_ci s (c # cs) \<or> (\<exists>k\<le>length cs. starts_with_ci s (drop k cs))"
    then show "\<exists>k\<le>length (c # cs). starts_with_ci s (drop k (c # cs))"
    proof
      assume "starts_with_ci s (c # cs)"
      then have "0 \<le> length (c # cs) \<and> starts_with_ci s (drop 0 (c # cs))" by simp
      then show ?thesis by blast
    next
      assume "\<exists>k\<le>length cs. starts_with_ci s (drop k cs)"
      then obtain k where "k \<le> length cs" "starts_with_ci s (drop k cs)" by blast
      then have "Suc k \<le> length (c # cs) \<and> starts_with_ci s (drop (Suc k) (c # cs))" by simp
      then show ?thesis by blast
    qed
  qed
  with Cons show ?case by simp
qed

lemma like_plain_contains:
  assumes "plain s"
  shows "like True (''%'' @ s @ ''%'') t \<longleftrightarrow> contains_ci s t"
proof -
  have "like True (''%'' @ s @ ''%'') t \<longleftrightarrow> (\<exists>k\<le>length t. like True (s @ ''%'') (drop k t))"
    using like_percent [of True "s @ ''%''" t] by simp
  also have "\<dots> \<longleftrightarrow> (\<exists>k\<le>length t. starts_with_ci s (drop k t))"
    unfolding like_plain_prefix [OF assms] starts_with_ci_iff
    using like_only_percent by simp
  finally show ?thesis by (simp add: contains_ci_iff)
qed

lemma search_clause_plain:
  assumes "plain s"
  shows "holds (OrWhere (Like Title (''%'' @ s @ ''%'')) (Like Description (''%'' @ s @ ''%''))) r
     \<longleftrightarrow> contains_ci s (title r) \<or> (\<exists>d. description r = Some d \<and> contains_ci s d)"
  using like_plain_contains [OF assms] by (auto split: option.splits)

text \<open>
  C3 fails on the code: the search string \<^verbatim>\<open>b_y\<close> selects the third sample row, whose
  title and description do not contain it, because \<^verbatim>\<open>_\<close> reaches \<^verbatim>\<open>LIKE\<close> as a
  wildcard. For a search string without such characters the clause is the substring test
  (\<open>search_clause_plain\<close>).
\<close>

theorem search_wildcard_matches:
  "\<not> isl (getAllTodos sample_db search_b_y)
   \<and> row3 \<in> set (data (projr (getAllTodos sample_db search_b_y)))
   \<and> title row3 = ''Buy groceries'' \<and> \<not> contains_ci ''b_y'' ''Buy groceries''
   \<and> description row3 = Some ''milk, bread, eggs''
   \<and> \<not> contains_ci ''b_y'' ''milk, bread, eggs''"
  by code_simp

text \<open>
  C4 fails on the code: the tag \<^verbatim>\<open>w_rk\<close> selects the first sample row, whose only tag is
  \<^verbatim>\<open>work\<close>, because \<^verbatim>\<open>_\<close> reaches \<^verbatim>\<open>LIKE\<close> as a wildcard.
\<close>

theorem tag_wildcard_matches:
  "\<not> isl (getAllTodos sample_db tag_w_rk)
   \<and> row1 \<in> set (data (projr (getAllTodos sample_db tag_w_rk)))
   \<and> tags row1 = Some (stringify (JArr [JStr ''work'']))
   \<and> ''w_rk'' \<notin> set [''work'']"
  by code_simp

section \<open>Creation\<close>

lemma apply_patch_append: "apply_patch (xs @ ys) r = apply_patch ys (apply_patch xs r)"
  by (simp add: apply_patch_def)

lemma inserted_row:
  "apply_patch (beforeInsert uuid now1 now2 obj) r =
     (apply_patch obj r)\<lparr>tid := uuid, createdAt := now1, updatedAt := now2\<rparr>"
  unfolding beforeInsert_def apply_patch_append
  by (simp add: apply_patch_def set_column_def)

text \<open>
  Tags that the service has turned into text, and a due date that the validation of the
  request has turned into a \<^verbatim>\<open>Date\<close>, do not pass the schema of the model class.
\<close>

lemma tags_as_text_invalid:
  assumes "map_of upd ''tags'' = Some (JArr xs)"
  shows "\<not> jsonSchema lib patch (process_tags upd)"
proof -
  from assms have "(''tags'', JArr xs) \<in> set upd"
    by (rule map_of_SomeD)
  then have "(''tags'', JStr (stringify (JArr xs))) \<in> set (process_tags upd)"
    unfolding process_tags_def by force
  moreover have "\<not> property_valid lib (''tags'', JStr (stringify (JArr xs)))"
    by (simp add: property_valid_def)
  ultimately show ?thesis
    unfolding jsonSchema_def list_all_iff by blast
qed

lemma date_object_invalid:
  assumes "map_of upd ''dueDate'' = Some (JNum t)"
  shows "\<not> jsonSchema lib patch (process_tags upd)"
proof -
  from assms have "(''dueDate'', JNum t) \<in> set upd"
    by (rule map_of_SomeD)
  then have "(''dueDate'', JNum t) \<in> set (process_tags upd)"
    unfolding process_tags_def by force
  moreover have "\<not> property_valid lib (''dueDate'', JNum t)"
    by (simp add: property_valid_def)
  ultimately show ?thesis
    unfolding jsonSchema_def list_all_iff by blast
qed

lemma createTodo_created:
  assumes "createTodo lib d uuid now1 now2 todoData = (Inr t, d')"
  shows "jsonSchema lib False (process_tags todoData)
     \<and> fault d = None \<and> uuid \<notin> set (map tid (rows d)) \<and> tid t = uuid
     \<and> createdAt t = now1 \<and> updatedAt t = now2 \<and> rows d' = rows d @ [t]"
  using assms
  by (auto simp: createTodo_def insert_q_def inserted_row Let_def
      split: option.splits if_splits)

lemma createTodo_rejected:
  assumes "\<not> jsonSchema lib False (process_tags todoData)
     \<or> fault d \<noteq> None \<or> uuid \<in> set (map tid (rows d))"
  shows "createTodo lib d uuid now1 now2 todoData = (Inl (ApiError 500 ''Failed to create todo''), d)"
  using assms
  by (auto simp: createTodo_def insert_q_def inserted_row Let_def split: option.splits)

section \<open>Errors of the store\<close>

lemma errorHandler_ApiError:
  assumes "sc \<noteq> 0"
  shows "errorHandler development (ApiError sc msg) =
     \<lparr>http_status = sc, error_code = getErrorCode sc, error_message = msg,
      error_details = None, error_stack = None\<rparr>"
  using assms
  by (simp add: errorHandler_def handleError_def ApiError_def sendErrorResponse_def Let_def)

lemma errorHandler_duplicate:
  assumes "err_errno e = Some 1062 \<or> err_code e = Some ''23000''"
    and "err_code e \<noteq> Some ''ECONNREFUSED''" and "err_code e \<noteq> Some ''ENOTFOUND''"
    and "err_name e \<noteq> ''JsonWebTokenError''" and "err_name e \<noteq> ''TokenExpiredError''"
  shows "errorHandler development e =
     \<lparr>http_status = 400, error_code = ''BAD_REQUEST'',
      error_message = ''Duplicate field value entered'', error_details = None,
      error_stack = (if development then Some ''Error: Duplicate field value entered'' else None)\<rparr>"
  using assms
  by (auto simp: errorHandler_def handleError_def ApiError_def sendErrorResponse_def Let_def
      getErrorCode_def)

text \<open>
  Whatever makes the insertion of an accepted creation request fail, the schema of the
  model class, a uniqueness violation or a fault of the store, the service throws its own
  error in place of the one it caught, and the caller receives status 500 with the message
  of the operation; the store is left as it was.
\<close>

lemma store_error_becomes_500:
  assumes "snd (validateBody (createTodoSchema lib now) req) = Next"
    and "\<not> jsonSchema lib False (process_tags (object_of (Some (req_body (fst
              (validateBody (createTodoSchema lib now) req))))))
         \<or> fault d \<noteq> None \<or> uuid \<in> set (map tid (rows d))"
  shows "post_todos lib development d now uuid now1 now2 req =
       (Inl \<lparr>http_status = 500, error_code = ''INTERNAL_SERVER_ERROR'',
             error_message = ''Failed to create todo'', error_details = None,
             error_stack = None\<rparr>, d)"
proof -
  obtain req' where v: "validateBody (createTodoSchema lib now) req = (req', Next)"
    using assms(1) by (cases "validateBody (createTodoSchema lib now) req") auto
  from assms(2) have "\<not> jsonSchema lib False (process_tags (object_of (Some (req_body req'))))
      \<or> fault d \<noteq> None \<or> uuid \<in> set (map tid (rows d))"
    unfolding v by simp
  then show ?thesis
    unfolding post_todos_def v
    by (simp add: createTodo_rejected errorHandler_ApiError getErrorCode_def)
qed

text \<open>
  C9 fails on the code. The creation request with only a title is accepted; the
  identifier that the hook assigns is the key of the first row, so the store reports a
  uniqueness violation (error number 1062) to the insertion. The error handler has a
  branch that answers this error with status 400 and \<^verbatim>\<open>Duplicate field value entered\<close>,
  but the error never reaches it: \<^verbatim>\<open>createTodo\<close> catches whatever the insertion throws
  and throws \<^verbatim>\<open>ApiError(500, 'Failed to create todo')\<close>, and the caller receives status
  500 with code \<^verbatim>\<open>INTERNAL_SERVER_ERROR\<close>.
\<close>

theorem duplicate_key_is_500:
  "validateBody (createTodoSchema sample_library 999) milk_request =
     (milk_request\<lparr>req_body := JObj milk_validated\<rparr>, Next)
   \<and> insert_q sample_library sample_db (tid row1) 1000 1000 (process_tags milk_validated)
       = Inl duplicate_key
   \<and> err_errno duplicate_key = Some 1062
   \<and> errorHandler False duplicate_key =
       \<lparr>http_status = 400, error_code = ''BAD_REQUEST'',
        error_message = ''Duplicate field value entered'', error_details = None,
        error_stack = None\<rparr>
   \<and> duplicate_milk =
       (Inl \<lparr>http_status = 500, error_code = ''INTERNAL_SERVER_ERROR'',
             error_message = ''Failed to create todo'', error_details = None,
             error_stack = None\<rparr>, sample_db)
   \<and> http_status (projl (fst duplicate_milk)) \<noteq> 400"
  by code_simp

section \<open>The validation middleware\<close>

lemma fst_validate_keys:
  "fst (validate_keys p input ks) = concat (map (key_violations p input) ks)"
  by (induction ks) (auto simp: key_violations_def Let_def split: option.splits presence.splits)




lemma keys_of_validate_keys:
  "set (map fst (snd (validate_keys p input ks))) \<subseteq> set (map fst ks)"
proof (induction ks)
  case Nil
  then show ?case by simp
next
  case (Cons key ks)
  obtain k pres check where key: "key = (k, pres, check)" by (cases key) auto
  show ?case
  proof (cases "map_of input k")
    case None
    with Cons key show ?thesis by (cases pres) (auto simp: Let_def)
  next
    case (Some v)
    with Cons key show ?thesis by (auto simp: Let_def)
  qed
qed

lemma joi_object_strict:
  "joi_object validation_options ks least [] (JObj input) =
     (all_violations ks least input, JObj (normalized ks input))"
  unfolding all_violations_def normalized_def
  by (simp add: joi_object_def validation_options_def fst_validate_keys Let_def)

lemma validate_value:
  "validate schema property req =
     (if fst (schema validation_options [] (get_property property req)) = []
      then (set_property property (snd (schema validation_options [] (get_property property req))) req,
            Next)
      else (req, Respond (validation_failure
              (fst (schema validation_options [] (get_property property req))))))"
  by (simp add: validate_def schema_validate_def validation_options_def validation_failure_def
      Let_def)


lemma bulkUpdateSchema_keys:
  "bulkUpdateSchema lib pr = joi_object pr (bulkUpdate_keys lib pr) None"
  by (simp add: bulkUpdateSchema_def bulkUpdate_keys_def)


section \<open>What creation assigns\<close>

lemma createTodoSchema_keys:
  "createTodoSchema lib now pr = joi_object pr (createTodo_keys lib now) None"
  by (simp add: createTodoSchema_def createTodo_keys_def)

lemma validate_keys_append:
  "validate_keys p input (ks1 @ ks2) =
     (fst (validate_keys p input ks1) @ fst (validate_keys p input ks2),
      snd (validate_keys p input ks1) @ snd (validate_keys p input ks2))"
proof (induction ks1)
  case Nil
  then show ?case by simp
next
  case (Cons key ks1)
  obtain k pres check where key: "key = (k, pres, check)" by (cases key) auto
  show ?case
  proof (cases "map_of input k")
    case None
    with Cons key show ?thesis by (cases pres) (simp_all add: Let_def)
  next
    case (Some v)
    with Cons key show ?thesis by (simp add: Let_def)
  qed
qed

lemma process_tags_append: "process_tags (xs @ ys) = process_tags xs @ process_tags ys"
  by (simp add: process_tags_def)

lemma keys_process_tags: "map fst (process_tags obj) = map fst obj"
  by (induction obj) (auto simp: process_tags_def split: js_value.splits)

lemma set_column_other:
  assumes "fst kv \<noteq> ''completed''"
  shows "completed (set_column kv r) = completed r"
  using assms
  by (auto simp: set_column_def Let_def split: js_value.splits option.splits)

lemma set_column_other_priority:
  assumes "fst kv \<noteq> ''priority''"
  shows "priority (set_column kv r) = priority r"
  using assms
  by (auto simp: set_column_def Let_def split: js_value.splits option.splits)

lemma apply_patch_keeps_completed:
  assumes "''completed'' \<notin> set (map fst obj)"
  shows "completed (apply_patch obj r) = completed r"
  using assms
proof (induction obj arbitrary: r)
  case Nil
  then show ?case by (simp add: apply_patch_def)
next
  case (Cons kv obj)
  then have "completed (apply_patch obj (set_column kv r)) = completed (set_column kv r)"
    by simp
  moreover from Cons.prems have "fst kv \<noteq> ''completed''" by auto
  ultimately show ?case
    using set_column_other [of kv r] by (simp add: apply_patch_def)
qed

lemma apply_patch_keeps_priority:
  assumes "''priority'' \<notin> set (map fst obj)"
  shows "priority (apply_patch obj r) = priority r"
  using assms
proof (induction obj arbitrary: r)
  case Nil
  then show ?case by (simp add: apply_patch_def)
next
  case (Cons kv obj)
  then have "priority (apply_patch obj (set_column kv r)) = priority (set_column kv r)"
    by simp
  moreover from Cons.prems have "fst kv \<noteq> ''priority''" by auto
  ultimately show ?case
    using set_column_other_priority [of kv r] by (simp add: apply_patch_def)
qed

lemma normalized_last_key:
  assumes "ks = front @ [(k, pres, check)]"
  shows "normalized ks input =
     normalized front input
     @ (case map_of input k of
          None \<Rightarrow> (case pres of Default v \<Rightarrow> [(k, v)] | _ \<Rightarrow> [])
        | Some v \<Rightarrow> [(k, snd (check [k] v))])"
  unfolding normalized_def assms validate_keys_append
  by (cases "map_of input k"; cases pres) (simp_all add: Let_def)

lemma normalized_middle_key:
  assumes "ks = front @ [(k, pres, check)] @ back"
  shows "normalized ks input =
     normalized front input
     @ (case map_of input k of
          None \<Rightarrow> (case pres of Default v \<Rightarrow> [(k, v)] | _ \<Rightarrow> [])
        | Some v \<Rightarrow> [(k, snd (check [k] v))])
     @ normalized back input"
  unfolding normalized_def assms validate_keys_append
  by (cases "map_of input k"; cases pres) (simp_all add: Let_def)

lemma keys_normalized: "set (map fst (normalized ks input)) \<subseteq> set (map fst ks)"
  unfolding normalized_def by (rule keys_of_validate_keys)

lemma post_todos_accepted:
  assumes "post_todos lib development d now uuid now1 now2 req = (Inr t, d')"
  shows "\<exists>input. req_body req = JObj input
     \<and> all_violations (createTodo_keys lib now) None input = []
     \<and> createTodo lib d uuid now1 now2 (normalized (createTodo_keys lib now) input) = (Inr t, d')"
proof -
  let ?run = "createTodoSchema lib now validation_options [] (req_body req)"
  have passed: "fst ?run = []"
    and created: "createTodo lib d uuid now1 now2 (object_of (Some (snd ?run))) = (Inr t, d')"
    using assms
    by (auto simp: post_todos_def validateBody_def validate_value
        split: if_splits prod.splits sum.splits)
  show ?thesis
  proof (cases "req_body req")
    case (JObj input)
    have run: "?run = (all_violations (createTodo_keys lib now) None input,
        JObj (normalized (createTodo_keys lib now) input))"
      using JObj by (simp add: createTodoSchema_keys joi_object_strict)
    from passed created show ?thesis
      unfolding run using JObj by (simp add: object_of_def)
  qed (use passed in \<open>simp_all add: createTodoSchema_def joi_object_def violation_def\<close>)
qed

lemma created_row:
  assumes "createTodo lib d uuid now1 now2 obj = (Inr t, d')"
  shows "t = (apply_patch (process_tags obj) column_defaults)
              \<lparr>tid := uuid, createdAt := now1, updatedAt := now2\<rparr>"
  using assms
  by (auto simp: createTodo_def insert_q_def inserted_row Let_def
      split: option.splits if_splits)

lemma process_tags_other:
  assumes "k \<noteq> ''tags''"
  shows "process_tags [(k, v)] = [(k, v)]"
  using assms by (simp add: process_tags_def)

lemma completed_of_created:
  assumes "createTodo lib d uuid now1 now2 (normalized (createTodo_keys lib now) input) = (Inr t, d')"
  shows "(map_of input ''completed'' = None \<longrightarrow> completed t = False)
     \<and> (\<forall>b. map_of input ''completed'' = Some (JBool b) \<longrightarrow> completed t = b)"
proof -
  obtain front where ks: "createTodo_keys lib now
      = front @ [(''completed'', Default (JBool False), completed_rule)]"
    by (simp add: createTodo_keys_def)
  let ?last = "case map_of input ''completed'' of
          None \<Rightarrow> [(''completed'', JBool False)]
        | Some v \<Rightarrow> [(''completed'', snd (completed_rule [''completed''] v))]"
  have out: "normalized (createTodo_keys lib now) input = normalized front input @ ?last"
    using normalized_last_key [OF ks, of input] by (simp split: option.splits)
  have tags: "process_tags ?last = ?last"
    by (cases "map_of input ''completed''") (simp_all add: process_tags_other)
  have t: "completed t = completed (apply_patch ?last
      (apply_patch (process_tags (normalized front input)) column_defaults))"
    unfolding created_row [OF assms] out process_tags_append tags apply_patch_append by simp
  have none: "completed t = False" if "map_of input ''completed'' = None"
    unfolding t that by (simp add: apply_patch_def set_column_def)
  have some: "completed t = b" if "map_of input ''completed'' = Some (JBool b)" for b
    unfolding t that by (simp add: apply_patch_def set_column_def completed_rule_def joi_boolean_def)
  from none some show ?thesis by blast
qed

lemma priority_of_created:
  assumes "createTodo lib d uuid now1 now2 (normalized (createTodo_keys lib now) input) = (Inr t, d')"
  shows "(map_of input ''priority'' = None \<longrightarrow> priority t = Medium)
     \<and> (\<forall>s p. map_of input ''priority'' = Some (JStr s) \<and> priority_of s = Some p
            \<longrightarrow> priority t = p)"
proof -
  define front where "front =
        [(''title'', Required ''Title is required'', title_rule),
         (''description'', Optional, description_rule)]"
  define later where "later =
        [(''dueDate'', Optional,
             joi_date_iso lib (Some (now, ''Due date cannot be in the past''))
               ''Due date must be a valid ISO date''),
         (''tags'', Optional, tags_rule),
         (''completed'', Default (JBool False), completed_rule)]"
  have ks: "createTodo_keys lib now
      = front @ [(''priority'', Default (JStr ''medium''), priority_rule)] @ later"
    by (simp add: createTodo_keys_def front_def later_def)
  have later_keys: "set (map fst later) = {''dueDate'', ''tags'', ''completed''}"
    by (simp add: later_def)
  let ?mid = "case map_of input ''priority'' of
          None \<Rightarrow> [(''priority'', JStr ''medium'')]
        | Some v \<Rightarrow> [(''priority'', snd (priority_rule [''priority''] v))]"
  have out: "normalized (createTodo_keys lib now) input
      = normalized front input @ ?mid @ normalized later input"
    using normalized_middle_key [OF ks, of input] by (simp split: option.splits)
  have tags: "process_tags ?mid = ?mid"
    by (cases "map_of input ''priority''") (simp_all add: process_tags_other)
  have "set (map fst (process_tags (normalized later input))) \<subseteq> {''dueDate'', ''tags'', ''completed''}"
    unfolding keys_process_tags using keys_normalized [of later input] later_keys by simp
  then have untouched: "''priority'' \<notin> set (map fst (process_tags (normalized later input)))"
    by auto
  have t: "priority t = priority (apply_patch ?mid
      (apply_patch (process_tags (normalized front input)) column_defaults))"
    unfolding created_row [OF assms] out process_tags_append tags apply_patch_append
    using apply_patch_keeps_priority [OF untouched] by simp
  have none: "priority t = Medium" if "map_of input ''priority'' = None"
    unfolding t that by (simp add: apply_patch_def set_column_def priority_of_def)
  have some: "priority t = p"
    if "map_of input ''priority'' = Some (JStr s)" "priority_of s = Some p" for s p
    unfolding t that(1) using that(2)
    by (auto simp: apply_patch_def set_column_def priority_rule_def joi_valid_def priority_of_def
        split: if_splits)
  from none some show ?thesis by blast
qed

lemma post_todos_created:
  assumes "post_todos lib development d now uuid now1 now2 req = (Inr t, d')"
  shows "\<exists>input. req_body req = JObj input
     \<and> (map_of input ''completed'' = None \<longrightarrow> completed t = False)
     \<and> (\<forall>b. map_of input ''completed'' = Some (JBool b) \<longrightarrow> completed t = b)
     \<and> (map_of input ''priority'' = None \<longrightarrow> priority t = Medium)
     \<and> (\<forall>s p. map_of input ''priority'' = Some (JStr s) \<and> priority_of s = Some p
            \<longrightarrow> priority t = p)
     \<and> tid t = uuid \<and> uuid \<notin> set (map tid (rows d)) \<and> rows d' = rows d @ [t]
     \<and> createdAt t = now1 \<and> updatedAt t = now2
     \<and> (createdAt t = updatedAt t \<longleftrightarrow> now1 = now2)"
proof -
  from post_todos_accepted [OF assms] obtain input where
    body: "req_body req = JObj input"
    and run: "createTodo lib d uuid now1 now2 (normalized (createTodo_keys lib now) input) = (Inr t, d')"
    by blast
  show ?thesis
    using body completed_of_created [OF run] priority_of_created [OF run]
      createTodo_created [OF run]
    by (intro exI [of _ input]) auto
qed

text \<open>
  C6 fails on the code: a creation request with only a title, while the clock moves by one
  millisecond between the two readings of \<^verbatim>\<open>$beforeInsert\<close>, creates an entity whose
  \<open>createdAt\<close> and \<open>updatedAt\<close> differ. The defaults and the fresh identifier are as the
  claim says, and the two timestamps are equal exactly when the two readings are
  (\<open>post_todos_created\<close>).
\<close>

theorem created_timestamps_differ:
  "\<not> isl (fst created_milk)
   \<and> tid (projr (fst created_milk)) = unused_id
   \<and> title (projr (fst created_milk)) = ''Buy milk''
   \<and> completed (projr (fst created_milk)) = False
   \<and> priority (projr (fst created_milk)) = Medium
   \<and> createdAt (projr (fst created_milk)) = 1000
   \<and> updatedAt (projr (fst created_milk)) = 1001
   \<and> createdAt (projr (fst created_milk)) \<noteq> updatedAt (projr (fst created_milk))"
  by code_simp

section \<open>Bulk operations\<close>

lemma snd_joi_uuid: "snd (joi_uuid lib msg p v) = v"
  by (cases v) (simp_all add: joi_uuid_def)

lemma length_errors_empty:
  "length_errors p v n (Some (a, m1)) (Some (b, m2)) = [] \<longleftrightarrow> a \<le> n \<and> n \<le> b"
  by (auto simp: length_errors_def)

lemma joi_array_accepts:
  assumes "fst (joi_array item (Some (a, m1)) (Some (b, m2)) False p v) = []"
  shows "\<exists>xs. v = JArr xs \<and> a \<le> length xs \<and> length xs \<le> b
     \<and> (\<forall>x\<in>set xs. \<exists>q. fst (item q x) = [])
     \<and> snd (joi_array item (Some (a, m1)) (Some (b, m2)) False p v)
         = JArr (map snd (map (\<lambda>ix. item (p @ [show_nat (fst ix)]) (snd ix)) (enumerate 0 xs)))"
proof (cases v)
  case (JArr xs)
  let ?checked = "map (\<lambda>ix. item (p @ [show_nat (fst ix)]) (snd ix)) (enumerate 0 xs)"
  have run: "joi_array item (Some (a, m1)) (Some (b, m2)) False p v =
      (concat (map fst ?checked)
         @ length_errors p (JArr (map snd ?checked)) (length xs) (Some (a, m1)) (Some (b, m2)),
       JArr (map snd ?checked))"
    unfolding joi_array_def JArr by (simp add: Let_def)
  from assms have "length_errors p (JArr (map snd ?checked)) (length xs)
      (Some (a, m1)) (Some (b, m2)) = []"
    and items: "concat (map fst ?checked) = []"
    unfolding run by simp_all
  then have bounds: "a \<le> length xs \<and> length xs \<le> b"
    by (simp only: length_errors_empty)
  have "\<exists>q. fst (item q x) = []" if "x \<in> set xs" for x
  proof -
    from that obtain i where i: "i < length xs" "xs ! i = x"
      by (auto simp: in_set_conv_nth)
    then have "(i, x) \<in> set (enumerate 0 xs)"
      by (simp add: in_set_enumerate_eq)
    moreover from items have
      "\<forall>ix\<in>set (enumerate 0 xs). fst (item (p @ [show_nat (fst ix)]) (snd ix)) = []"
      by simp
    ultimately have "fst (item (p @ [show_nat i]) x) = []"
      by force
    then show ?thesis by blast
  qed
  with bounds show ?thesis
    using JArr run by simp
next
  case JNull
  with assms show ?thesis by (simp add: joi_array_def)
next
  case (JBool x)
  with assms show ?thesis by (simp add: joi_array_def)
next
  case (JNum x)
  with assms show ?thesis by (simp add: joi_array_def)
next
  case (JStr x)
  with assms show ?thesis by (simp add: joi_array_def)
next
  case (JObj x)
  with assms show ?thesis by (simp add: joi_array_def)
qed

lemma joi_uuid_accepts:
  assumes "\<exists>q. fst (joi_uuid lib msg q x) = []"
  shows "\<exists>s. x = JStr s \<and> is_uuidv4 lib s"
  using assms by (cases x) (auto simp: joi_uuid_def split: if_splits)

lemma strings_of_strings:
  assumes "\<forall>x\<in>set xs. \<exists>s. x = JStr s \<and> P s"
  shows "map JStr (strings_of (Some (JArr xs))) = xs
     \<and> (\<forall>s\<in>set (strings_of (Some (JArr xs))). P s)"
  using assms by (induction xs) (auto simp: strings_of_def)

lemma ids_rule_accepts:
  assumes "fst (ids_rule lib msg p v) = []"
  shows "\<exists>ids. v = JArr ids \<and> 1 \<le> length ids \<and> length ids \<le> 50
     \<and> map JStr (strings_of (Some (JArr ids))) = ids
     \<and> (\<forall>s\<in>set (strings_of (Some (JArr ids))). is_uuidv4 lib s)
     \<and> snd (ids_rule lib msg p v) = JArr ids"
proof -
  have same: "map snd (map (\<lambda>ix. joi_uuid lib m (q ix) (snd ix)) (enumerate 0 xs)) = xs"
    for m q xs
    by (simp add: snd_joi_uuid comp_def)
  from joi_array_accepts [OF assms [unfolded ids_rule_def]] obtain ids where
    ids: "v = JArr ids" "1 \<le> length ids" "length ids \<le> 50"
    "\<forall>x\<in>set ids. \<exists>q. fst (joi_uuid lib None q x) = []"
    "snd (ids_rule lib msg p v) = JArr ids"
    unfolding ids_rule_def same by auto
  have "\<exists>s. x = JStr s \<and> is_uuidv4 lib s" if "x \<in> set ids" for x
  proof (rule joi_uuid_accepts)
    from ids(4) that
    show "\<exists>q. fst (joi_uuid lib None q x) = []"
      by blast
  qed
  then have "\<forall>x\<in>set ids. \<exists>s. x = JStr s \<and> is_uuidv4 lib s"
    by blast
  then have "map JStr (strings_of (Some (JArr ids))) = ids
      \<and> (\<forall>s\<in>set (strings_of (Some (JArr ids))). is_uuidv4 lib s)"
    by (rule strings_of_strings)
  with ids(1-3,5) show ?thesis by blast
qed

lemma validate_keys_optional:
  assumes "\<forall>key\<in>set ks. fst (snd key) = Optional"
  shows "map fst (snd (validate_keys p input ks)) = filter (\<lambda>k. map_of input k \<noteq> None) (map fst ks)"
  using assms
proof (induction ks)
  case Nil
  then show ?case by simp
next
  case (Cons key ks)
  obtain k pres check where key: "key = (k, pres, check)" by (cases key) auto
  with Cons.prems have "pres = Optional" by simp
  with Cons key show ?case by (cases "map_of input k") (auto simp: Let_def)
qed

lemma joi_object_accepts:
  assumes "fst (joi_object validation_options ks (Some (n, msg)) p v) = []"
  shows "\<exists>obj. v = JObj obj \<and> n \<le> length (snd (validate_keys p obj ks))
     \<and> snd (joi_object validation_options ks (Some (n, msg)) p v)
         = JObj (snd (validate_keys p obj ks))"
proof (cases v)
  case (JObj obj)
  have run: "joi_object validation_options ks (Some (n, msg)) p v =
      (fst (validate_keys p obj ks)
         @ (if length (snd (validate_keys p obj ks)) < n
            then [violation p msg (Some (JObj (snd (validate_keys p obj ks))))] else []),
       JObj (snd (validate_keys p obj ks)))"
    unfolding joi_object_def JObj by (simp add: validation_options_def Let_def)
  from assms have "\<not> length (snd (validate_keys p obj ks)) < n"
    unfolding run by (auto split: if_splits)
  then show ?thesis
    using JObj run by simp
next
  case JNull
  with assms show ?thesis by (simp add: joi_object_def)
next
  case (JBool x)
  with assms show ?thesis by (simp add: joi_object_def)
next
  case (JNum x)
  with assms show ?thesis by (simp add: joi_object_def)
next
  case (JStr x)
  with assms show ?thesis by (simp add: joi_object_def)
next
  case (JArr x)
  with assms show ?thesis by (simp add: joi_object_def)
qed

lemma updateTodoSchema_keys:
  "updateTodoSchema lib pr =
     joi_object pr (updateTodo_keys lib)
       (Some (1, ''At least one field must be provided for update''))"
  by (simp add: updateTodoSchema_def updateTodo_keys_def)

lemma updateTodo_keys_names: "map fst (updateTodo_keys lib) = update_fields"
  by (simp add: updateTodo_keys_def update_fields_def)

lemma updateTodo_keys_optional: "\<forall>key\<in>set (updateTodo_keys lib). fst (snd key) = Optional"
  by (simp add: updateTodo_keys_def)

lemma updateTodoSchema_accepts:
  assumes "fst (updateTodoSchema lib validation_options p v) = []"
  shows "\<exists>upd. v = JObj upd \<and> (\<exists>k\<in>set update_fields. map_of upd k \<noteq> None)"
proof -
  from joi_object_accepts [OF assms [unfolded updateTodoSchema_keys]] obtain upd where
    upd: "v = JObj upd" "1 \<le> length (snd (validate_keys p upd (updateTodo_keys lib)))"
    by blast
  from upd(2) have "map fst (snd (validate_keys p upd (updateTodo_keys lib))) \<noteq> []"
    by auto
  then have "filter (\<lambda>k. map_of upd k \<noteq> None) update_fields \<noteq> []"
    unfolding validate_keys_optional [OF updateTodo_keys_optional] updateTodo_keys_names .
  then have "\<exists>k\<in>set update_fields. map_of upd k \<noteq> None"
    by (simp add: filter_empty_conv)
  with upd(1) show ?thesis by blast
qed

lemma bulkUpdate_valid:
  assumes "validateBody (bulkUpdateSchema lib) req = (req', Next)"
  shows "\<exists>body ids upd.
       req_body req = JObj body
     \<and> map_of body ''ids'' = Some (JArr ids) \<and> 1 \<le> length ids \<and> length ids \<le> 50
     \<and> map JStr (strings_of (Some (JArr ids))) = ids
     \<and> map_of body ''updateData'' = Some (JObj upd)
     \<and> fst (updateTodoSchema lib validation_options [''updateData''] (JObj upd)) = []
     \<and> (\<exists>k\<in>set update_fields. map_of upd k \<noteq> None)
     \<and> property_of ''ids'' (req_body req') = Some (JArr ids)
     \<and> property_of ''updateData'' (req_body req')
         = Some (snd (updateTodoSchema lib validation_options [''updateData''] (JObj upd)))"
proof -
  let ?run = "bulkUpdateSchema lib validation_options [] (req_body req)"
  from assms have ok: "fst ?run = []" and out: "req' = req\<lparr>req_body := snd ?run\<rparr>"
    by (auto simp: validateBody_def validate_value split: if_splits)
  show ?thesis
  proof (cases "req_body req")
    case (JObj body)
    let ?ks = "bulkUpdate_keys lib validation_options"
    have run: "?run = (all_violations ?ks None body, JObj (normalized ?ks body))"
      using JObj by (simp add: bulkUpdateSchema_keys joi_object_strict)
    with ok have none: "all_violations ?ks None body = []" by simp
    obtain v1 where v1: "map_of body ''ids'' = Some v1"
      using none
      by (cases "map_of body ''ids''")
        (auto simp: all_violations_def bulkUpdate_keys_def key_violations_def)
    obtain v2 where v2: "map_of body ''updateData'' = Some v2"
      using none
      by (cases "map_of body ''updateData''")
        (auto simp: all_violations_def bulkUpdate_keys_def key_violations_def)
    from none v1 have e1:
      "fst (ids_rule lib ''Cannot update more than 50 todos at once'' [''ids''] v1) = []"
      by (simp add: all_violations_def bulkUpdate_keys_def key_violations_def)
    from none v2 have e2: "fst (updateTodoSchema lib validation_options [''updateData''] v2) = []"
      by (simp add: all_violations_def bulkUpdate_keys_def key_violations_def)
    from ids_rule_accepts [OF e1] obtain ids where ids: "v1 = JArr ids" "1 \<le> length ids"
      "length ids \<le> 50"
      "snd (ids_rule lib ''Cannot update more than 50 todos at once'' [''ids''] v1) = JArr ids"
      and strs: "map JStr (strings_of (Some (JArr ids))) = ids"
      by blast
    from updateTodoSchema_accepts [OF e2] obtain upd where upd: "v2 = JObj upd"
      "\<exists>k\<in>set update_fields. map_of upd k \<noteq> None"
      by blast
    have norm: "normalized ?ks body =
        [(''ids'', JArr ids), (''updateData'', snd (updateTodoSchema lib validation_options
            [''updateData''] (JObj upd)))]"
      using v1 v2 ids(1,4) upd(1)
      by (simp add: normalized_def bulkUpdate_keys_def Let_def)
    have body': "req_body req' = JObj (normalized ?ks body)"
      using out run by simp
    show ?thesis
      using JObj v1 v2 ids(1-3) strs upd e2 body' norm by (simp add: property_of_def)
  qed (use ok in \<open>simp_all add: bulkUpdateSchema_def joi_object_def violation_def\<close>)
qed

lemma bulkDeleteSchema_keys:
  "bulkDeleteSchema lib pr = joi_object pr (bulkDelete_keys lib pr) None"
  by (simp add: bulkDeleteSchema_def bulkDelete_keys_def)

lemma bulkDelete_valid:
  assumes "validateBody (bulkDeleteSchema lib) req = (req', Next)"
  shows "\<exists>body ids.
       req_body req = JObj body
     \<and> map_of body ''ids'' = Some (JArr ids) \<and> 1 \<le> length ids \<and> length ids \<le> 50
     \<and> map JStr (strings_of (Some (JArr ids))) = ids
     \<and> property_of ''ids'' (req_body req') = Some (JArr ids)"
proof -
  let ?run = "bulkDeleteSchema lib validation_options [] (req_body req)"
  from assms have ok: "fst ?run = []" and out: "req' = req\<lparr>req_body := snd ?run\<rparr>"
    by (auto simp: validateBody_def validate_value split: if_splits)
  show ?thesis
  proof (cases "req_body req")
    case (JObj body)
    let ?ks = "bulkDelete_keys lib validation_options"
    have run: "?run = (all_violations ?ks None body, JObj (normalized ?ks body))"
      using JObj by (simp add: bulkDeleteSchema_keys joi_object_strict)
    with ok have none: "all_violations ?ks None body = []" by simp
    obtain v1 where v1: "map_of body ''ids'' = Some v1"
      using none
      by (cases "map_of body ''ids''")
        (auto simp: all_violations_def bulkDelete_keys_def key_violations_def)
    from none v1 have e1:
      "fst (ids_rule lib ''Cannot delete more than 50 todos at once'' [''ids''] v1) = []"
      by (simp add: all_violations_def bulkDelete_keys_def key_violations_def)
    from ids_rule_accepts [OF e1] obtain ids where ids: "v1 = JArr ids" "1 \<le> length ids"
      "length ids \<le> 50"
      "snd (ids_rule lib ''Cannot delete more than 50 todos at once'' [''ids''] v1) = JArr ids"
      and strs: "map JStr (strings_of (Some (JArr ids))) = ids"
      by blast
    have norm: "normalized ?ks body = [(''ids'', JArr ids)]"
      using v1 ids(1,4) by (simp add: normalized_def bulkDelete_keys_def Let_def)
    have body': "req_body req' = JObj (normalized ?ks body)"
      using out run by simp
    show ?thesis
      using JObj v1 ids(1-3) strs body' norm by (simp add: property_of_def)
  qed (use ok in \<open>simp_all add: bulkDeleteSchema_def joi_object_def violation_def\<close>)
qed

lemma validate_rejects:
  assumes "snd (validate schema property req) \<noteq> Next"
  shows "\<exists>ds. ds \<noteq> [] \<and> validate schema property req = (req, Respond (validation_failure ds))"
  using assms by (auto simp: validate_value split: if_splits)

lemma holds_IdIn: "holds (IdIn ids) = (\<lambda>r. tid r \<in> set ids)"
  by (simp add: fun_eq_iff)

lemma bulkUpdateTodos_value:
  assumes "fault d = None" and "jsonSchema lib True (process_tags upd)"
  shows "bulkUpdateTodos lib d now ids upd =
     (Inr (int (length (filter (\<lambda>r. tid r \<in> set ids) (rows d)))),
      d\<lparr>rows := map (\<lambda>r. if tid r \<in> set ids
                              then apply_patch (beforeUpdate now (process_tags upd)) r else r)
                      (rows d)\<rparr>)"
  using assms by (simp add: bulkUpdateTodos_def patch_q_def holds_IdIn)

lemma bulkUpdateTodos_invalid:
  assumes "\<not> jsonSchema lib True (process_tags upd)"
  shows "bulkUpdateTodos lib d now ids upd
     = (Inl (ApiError 500 ''Failed to bulk update todos''), d)"
  using assms by (simp add: bulkUpdateTodos_def patch_q_def)

lemma bulkDeleteTodos_value:
  assumes "fault d = None"
  shows "bulkDeleteTodos d ids =
     (Inr (int (length (filter (\<lambda>r. tid r \<in> set ids) (rows d)))),
      d\<lparr>rows := filter (\<lambda>r. tid r \<notin> set ids) (rows d)\<rparr>)"
  using assms by (simp add: bulkDeleteTodos_def delete_q_def holds_IdIn)

lemma matched_count:
  assumes "distinct (map tid rs)"
  shows "length (filter (\<lambda>r. tid r \<in> set ids) rs) = card (set ids \<inter> set (map tid rs))"
proof -
  let ?kept = "filter (\<lambda>i. i \<in> set ids) (map tid rs)"
  have "map tid (filter (\<lambda>r. tid r \<in> set ids) rs) = ?kept"
    by (simp add: filter_map comp_def)
  then have "length (filter (\<lambda>r. tid r \<in> set ids) rs) = length ?kept"
    by (metis length_map)
  moreover have "distinct ?kept"
    using assms by (rule distinct_filter)
  then have "card (set ?kept) = length ?kept"
    by (rule distinct_card)
  moreover have "set ?kept = set ids \<inter> set (map tid rs)"
    by auto
  ultimately show ?thesis by simp
qed

text \<open>
  On a store that answers: a bulk request that fails validation is answered with status
  400 and changes nothing; an accepted one has between 1 and 50 ids, all strings, and, for
  an update, a payload that passes the schema of the single update with at least one of
  its fields. An accepted update whose payload, with its tags turned into text by the
  service, passes the schema of the model class is applied to every row whose id is among
  the ids, the count being the number of those rows (with distinct keys, the number of ids
  that have a row); one whose payload does not pass is answered with status 500 and
  changes nothing. An accepted deletion removes the rows whose id is among the ids and
  returns their number.
\<close>

lemma bulk_routes:
  assumes "fault d = None"
  shows "(snd (validateBody (bulkUpdateSchema lib) req) \<noteq> Next \<longrightarrow>
            (\<exists>f. patch_todos_bulk lib development d now req = (Inl f, d)
                 \<and> http_status f = 400 \<and> error_code f = ''VALIDATION_ERROR''))
     \<and> (snd (validateBody (bulkUpdateSchema lib) req) = Next \<longrightarrow>
            (\<exists>body ids upd.
                req_body req = JObj body
              \<and> map_of body ''ids'' = Some (JArr ids) \<and> 1 \<le> length ids \<and> length ids \<le> 50
              \<and> map JStr (strings_of (Some (JArr ids))) = ids
              \<and> map_of body ''updateData'' = Some (JObj upd)
              \<and> fst (updateTodoSchema lib validation_options [''updateData''] (JObj upd)) = []
              \<and> (\<exists>k\<in>set update_fields. map_of upd k \<noteq> None)
              \<and> patch_todos_bulk lib development d now req =
                  (if jsonSchema lib True (process_tags (object_of (Some (snd
                        (updateTodoSchema lib validation_options [''updateData''] (JObj upd))))))
                   then
                     (Inr (int (length (filter (\<lambda>r. tid r \<in> set (strings_of (Some (JArr ids))))
                                         (rows d)))),
                      d\<lparr>rows := map (\<lambda>r. if tid r \<in> set (strings_of (Some (JArr ids)))
                         then apply_patch (beforeUpdate now (process_tags (object_of (Some (snd
                                (updateTodoSchema lib validation_options [''updateData'']
                                   (JObj upd))))))) r
                         else r) (rows d)\<rparr>)
                   else
                     (Inl \<lparr>http_status = 500, error_code = ''INTERNAL_SERVER_ERROR'',
                           error_message = ''Failed to bulk update todos'',
                           error_details = None, error_stack = None\<rparr>, d))))
     \<and> (distinct (map tid (rows d)) \<longrightarrow>
            length (filter (\<lambda>r. tid r \<in> set is) (rows d)) = card (set is \<inter> set (map tid (rows d))))
     \<and> (snd (validateBody (bulkDeleteSchema lib) dreq) \<noteq> Next \<longrightarrow>
            (\<exists>f. delete_todos_bulk lib development d dreq = (Inl f, d)
                 \<and> http_status f = 400 \<and> error_code f = ''VALIDATION_ERROR''))
     \<and> (snd (validateBody (bulkDeleteSchema lib) dreq) = Next \<longrightarrow>
            (\<exists>body ids.
                req_body dreq = JObj body
              \<and> map_of body ''ids'' = Some (JArr ids) \<and> 1 \<le> length ids \<and> length ids \<le> 50
              \<and> map JStr (strings_of (Some (JArr ids))) = ids
              \<and> delete_todos_bulk lib development d dreq =
                  (Inr (int (length (filter (\<lambda>r. tid r \<in> set (strings_of (Some (JArr ids))))
                                       (rows d)))),
                   d\<lparr>rows := filter (\<lambda>r. tid r \<notin> set (strings_of (Some (JArr ids))))
                                   (rows d)\<rparr>)))"
proof -
  have u_bad: "\<exists>f. patch_todos_bulk lib development d now req = (Inl f, d)
                 \<and> http_status f = 400 \<and> error_code f = ''VALIDATION_ERROR''"
    if "snd (validateBody (bulkUpdateSchema lib) req) \<noteq> Next"
  proof -
    from validate_rejects [of "bulkUpdateSchema lib" Body req] that obtain ds where
      "validateBody (bulkUpdateSchema lib) req = (req, Respond (validation_failure ds))"
      by (auto simp: validateBody_def)
    then show ?thesis
      by (simp add: patch_todos_bulk_def validation_failure_def)
  qed
  have u_good: "\<exists>body ids upd.
                req_body req = JObj body
              \<and> map_of body ''ids'' = Some (JArr ids) \<and> 1 \<le> length ids \<and> length ids \<le> 50
              \<and> map JStr (strings_of (Some (JArr ids))) = ids
              \<and> map_of body ''updateData'' = Some (JObj upd)
              \<and> fst (updateTodoSchema lib validation_options [''updateData''] (JObj upd)) = []
              \<and> (\<exists>k\<in>set update_fields. map_of upd k \<noteq> None)
              \<and> patch_todos_bulk lib development d now req =
                  (if jsonSchema lib True (process_tags (object_of (Some (snd
                        (updateTodoSchema lib validation_options [''updateData''] (JObj upd))))))
                   then
                     (Inr (int (length (filter (\<lambda>r. tid r \<in> set (strings_of (Some (JArr ids))))
                                         (rows d)))),
                      d\<lparr>rows := map (\<lambda>r. if tid r \<in> set (strings_of (Some (JArr ids)))
                         then apply_patch (beforeUpdate now (process_tags (object_of (Some (snd
                                (updateTodoSchema lib validation_options [''updateData'']
                                   (JObj upd))))))) r
                         else r) (rows d)\<rparr>)
                   else
                     (Inl \<lparr>http_status = 500, error_code = ''INTERNAL_SERVER_ERROR'',
                           error_message = ''Failed to bulk update todos'',
                           error_details = None, error_stack = None\<rparr>, d))"
    if "snd (validateBody (bulkUpdateSchema lib) req) = Next"
  proof -
    from that obtain req' where v: "validateBody (bulkUpdateSchema lib) req = (req', Next)"
      by (cases "validateBody (bulkUpdateSchema lib) req") auto
    from bulkUpdate_valid [OF v] obtain body ids upd where b:
      "req_body req = JObj body"
      "map_of body ''ids'' = Some (JArr ids)" "1 \<le> length ids" "length ids \<le> 50"
      "map_of body ''updateData'' = Some (JObj upd)"
      "fst (updateTodoSchema lib validation_options [''updateData''] (JObj upd)) = []"
      "\<exists>k\<in>set update_fields. map_of upd k \<noteq> None"
      "property_of ''ids'' (req_body req') = Some (JArr ids)"
      "property_of ''updateData'' (req_body req')
         = Some (snd (updateTodoSchema lib validation_options [''updateData''] (JObj upd)))"
      and strs: "map JStr (strings_of (Some (JArr ids))) = ids"
      by blast
    let ?patch = "process_tags (object_of (Some (snd
        (updateTodoSchema lib validation_options [''updateData''] (JObj upd)))))"
    have "patch_todos_bulk lib development d now req =
                  (if jsonSchema lib True ?patch
                   then
                     (Inr (int (length (filter (\<lambda>r. tid r \<in> set (strings_of (Some (JArr ids))))
                                         (rows d)))),
                      d\<lparr>rows := map (\<lambda>r. if tid r \<in> set (strings_of (Some (JArr ids)))
                         then apply_patch (beforeUpdate now ?patch) r
                         else r) (rows d)\<rparr>)
                   else
                     (Inl \<lparr>http_status = 500, error_code = ''INTERNAL_SERVER_ERROR'',
                           error_message = ''Failed to bulk update todos'',
                           error_details = None, error_stack = None\<rparr>, d))"
    proof (cases "jsonSchema lib True ?patch")
      case True
      then show ?thesis
        using b(8,9) by (simp add: patch_todos_bulk_def v bulkUpdateTodos_value [OF assms])
    next
      case False
      then show ?thesis
        using b(8,9)
        by (simp add: patch_todos_bulk_def v bulkUpdateTodos_invalid errorHandler_ApiError
            getErrorCode_def)
    qed
    with b(1-7) strs show ?thesis by blast
  qed
  have d_bad: "\<exists>f. delete_todos_bulk lib development d dreq = (Inl f, d)
                 \<and> http_status f = 400 \<and> error_code f = ''VALIDATION_ERROR''"
    if "snd (validateBody (bulkDeleteSchema lib) dreq) \<noteq> Next"
  proof -
    from validate_rejects [of "bulkDeleteSchema lib" Body dreq] that obtain ds where
      "validateBody (bulkDeleteSchema lib) dreq = (dreq, Respond (validation_failure ds))"
      by (auto simp: validateBody_def)
    then show ?thesis
      by (simp add: delete_todos_bulk_def validation_failure_def)
  qed
  have d_good: "\<exists>body ids.
                req_body dreq = JObj body
              \<and> map_of body ''ids'' = Some (JArr ids) \<and> 1 \<le> length ids \<and> length ids \<le> 50
              \<and> map JStr (strings_of (Some (JArr ids))) = ids
              \<and> delete_todos_bulk lib development d dreq =
                  (Inr (int (length (filter (\<lambda>r. tid r \<in> set (strings_of (Some (JArr ids))))
                                       (rows d)))),
                   d\<lparr>rows := filter (\<lambda>r. tid r \<notin> set (strings_of (Some (JArr ids))))
                                   (rows d)\<rparr>)"
    if "snd (validateBody (bulkDeleteSchema lib) dreq) = Next"
  proof -
    from that obtain req' where v: "validateBody (bulkDeleteSchema lib) dreq = (req', Next)"
      by (cases "validateBody (bulkDeleteSchema lib) dreq") auto
    from bulkDelete_valid [OF v] obtain body ids where b:
      "req_body dreq = JObj body"
      "map_of body ''ids'' = Some (JArr ids)" "1 \<le> length ids" "length ids \<le> 50"
      "property_of ''ids'' (req_body req') = Some (JArr ids)"
      and strs: "map JStr (strings_of (Some (JArr ids))) = ids"
      by blast
    have "delete_todos_bulk lib development d dreq =
                  (Inr (int (length (filter (\<lambda>r. tid r \<in> set (strings_of (Some (JArr ids))))
                                       (rows d)))),
                   d\<lparr>rows := filter (\<lambda>r. tid r \<notin> set (strings_of (Some (JArr ids))))
                                   (rows d)\<rparr>)"
      using b(5) by (simp add: delete_todos_bulk_def v bulkDeleteTodos_value [OF assms])
    with b(1-4) strs show ?thesis by blast
  qed
  show ?thesis
    using u_bad u_good d_bad d_good matched_count [of "rows d" "is"]
    by (intro conjI impI) assumption+
qed

text \<open>
  C8 fails on the code. The bulk update request in the manner of \<^verbatim>\<open>API_EXAMPLES.md\<close>,
  with two ids that have a row and the update payload
  \<^verbatim>\<open>{priority: 'high', tags: ['urgent', 'review']}\<close>, passes validation unchanged. The
  service turns the tags into the text that \<^verbatim>\<open>JSON.stringify\<close> gives, the schema of the
  model class asks for an array or \<^verbatim>\<open>null\<close>, so the mapper rejects the patch before
  any statement is sent, and the service answers status 500: no row is modified and no
  count is returned, although the request is valid and both ids have a row. The same
  request with the payload \<^verbatim>\<open>{completed: true}\<close> and a third id that has no row
  modifies two rows and returns 2.
\<close>

theorem bulk_update_tags_fails:
  "validateBody (bulkUpdateSchema sample_library) tagged_bulk_request
     = (tagged_bulk_request, Next)
   \<and> tid row1 \<in> set (map tid (rows sample_db)) \<and> tid row3 \<in> set (map tid (rows sample_db))
   \<and> process_tags tagged_update
       = [(''priority'', JStr ''high''),
          (''tags'', JStr (stringify (JArr [JStr ''urgent'', JStr ''review''])))]
   \<and> stringify (JArr [JStr ''urgent'', JStr ''review''])
       = [CHR ''['', CHR 0x22] @ ''urgent'' @ [CHR 0x22, CHR '','', CHR 0x22] @ ''review''
         @ [CHR 0x22, CHR '']'']
   \<and> \<not> jsonSchema sample_library True (process_tags tagged_update)
   \<and> bulkUpdateTodos sample_library sample_db 50 [tid row1, tid row3] tagged_update
       = (Inl (ApiError 500 ''Failed to bulk update todos''), sample_db)
   \<and> patch_todos_bulk sample_library False sample_db 50 tagged_bulk_request
       = (Inl \<lparr>http_status = 500, error_code = ''INTERNAL_SERVER_ERROR'',
               error_message = ''Failed to bulk update todos'',
               error_details = None, error_stack = None\<rparr>, sample_db)
   \<and> fst (patch_todos_bulk sample_library False sample_db 50 good_bulk_request) = Inr 2
   \<and> map completed (rows (snd (patch_todos_bulk sample_library False sample_db 50
         good_bulk_request))) = [True, True, True]"
  by code_simp


end
